theory Spec2Isabelle
  imports Main
begin

section \<open>Syntax tree (src/src/ast.py)\<close>

text \<open>
  The node classes of \<^verbatim>\<open>ast.py\<close> as one datatype. Fields typed \<^verbatim>\<open>Optional\<close> are
  \<open>node option\<close>. The parser stores the Python list returned by a declaration with
  several declarators directly in a statement slot (\<^verbatim>\<open>If.then_branch\<close>, \<^verbatim>\<open>While.body\<close>,
  \<^verbatim>\<open>For.init\<close>); \<open>NodeList\<close> is that list. A literal keeps its value; the value of a
  float literal is kept as its lexeme (no analysis reads it).
  \<open>If\<close> and \<open>Literal\<close> carry a suffix, the plain names being constants of HOL.
\<close>

datatype lit_value = IntV int | FloatV string | StrV string | BoolV bool

datatype node =
    FuncDecl (ret_type: string) (fname: string) (params: "(string \<times> string) list") (body: node)
  | VarDecl string string "node option" bool
  | Compound "node list"
  | If_node node node "node option"
  | While node node
  | For "node option" "node option" "node option" node
  | Return "node option"
  | ExprStmt node
  | BinaryOp string node node
  | UnaryOp string node
  | Literal_node lit_value string
  | VarRef string
  | FuncCall string "node list"
  | NodeList "node list"

datatype program = Program (declarations: "node list")

text \<open>Python truthiness of a value held in a node slot: an AST object is true, a list is
  true when it is not empty. \<open>None\<close> is handled where the option is taken apart.\<close>

fun truthy :: "node \<Rightarrow> bool" where
  "truthy (NodeList xs) = (xs \<noteq> [])"
| "truthy _ = True"

section \<open>Semantic analyzer (src/src/semantic.py)\<close>

type_synonym scope_table = "string \<rightharpoonup> string \<times> bool"

text \<open>The instance state of \<^verbatim>\<open>SemanticAnalyzer\<close>. \<open>functions\<close> is a dict that is iterated
  in insertion order, hence an association list; keys are inserted only when absent.\<close>

record analyzer =
  program :: program
  errors :: "string list"
  global_scope :: scope_table
  "functions" :: "(string \<times> node) list"

definition SemanticAnalyzer :: "program \<Rightarrow> analyzer" where
  "SemanticAnalyzer prog =
     \<lparr>program = prog, errors = [], global_scope = Map.empty, functions = []\<rparr>"

text \<open>Decimal rendering of a number inside an f-string.\<close>

fun str_nat :: "nat \<Rightarrow> string" where
  "str_nat n =
     (if n < 10 then [char_of (48 + n)]
      else str_nat (n div 10) @ [char_of (48 + n mod 10)])"

definition arith_ops :: "string list" where
  "arith_ops = [''+'', ''-'', ''*'', ''/'', ''%'']"

definition compare_ops :: "string list" where
  "compare_ops = [''=='', ''!='', ''<'', ''>'', ''<='', ''>='']"

definition logic_ops :: "string list" where
  "logic_ops = [''&&'', ''||'']"

definition assign_ops :: "string list" where
  "assign_ops = [''='', ''+='', ''-='', ''*='', ''/='', ''%='']"

text \<open>
  \<^verbatim>\<open>infer_type\<close>, a closure of \<^verbatim>\<open>check_function\<close>: \<open>gs\<close> and \<open>fs\<close> are
  \<^verbatim>\<open>self.global_scope\<close> and \<^verbatim>\<open>self.functions\<close>, \<open>f\<close> the function being checked,
  \<open>scope\<close> its local table, \<open>errs\<close> the list \<^verbatim>\<open>self.errors\<close> threaded through.
  The result type is \<open>None\<close> for Python's \<^verbatim>\<open>None\<close>. Every caller passes an existing
  node, so the guard \<^verbatim>\<open>node is None\<close> has no counterpart. The test \<^verbatim>\<open>op in ('!')\<close> is a
  substring test on the string \<^verbatim>\<open>'!'\<close>: it holds for the empty string and for \<^verbatim>\<open>'!'\<close>.
  A unary operator that passes all tests of the first block reaches the second
  \<^verbatim>\<open>if t is _ast.UnaryOp\<close>, which also returns the operand's type.
  \<open>infer_args\<close> is the loop over \<^verbatim>\<open>enumerate(node.args)\<close>.
\<close>

function (sequential)
  infer_type :: "scope_table \<Rightarrow> (string \<times> node) list \<Rightarrow> node \<Rightarrow> scope_table \<Rightarrow> node
                 \<Rightarrow> string list \<Rightarrow> string option \<times> string list"
  and infer_args :: "scope_table \<Rightarrow> (string \<times> node) list \<Rightarrow> node \<Rightarrow> scope_table \<Rightarrow> string
                 \<Rightarrow> (string \<times> string) list \<Rightarrow> nat \<Rightarrow> node list \<Rightarrow> string list \<Rightarrow> string list"
where
  "infer_type gs fs f scope (Literal_node v typ) errs = (Some typ, errs)"
| "infer_type gs fs f scope (UnaryOp op e) errs =
     (if op = [] \<or> op = ''!'' \<or> op = ''pre!'' \<or> op = ''post!'' then (Some ''bool'', errs)
      else infer_type gs fs f scope e errs)"
| "infer_type gs fs f scope (VarRef n) errs =
     (case scope n of
        Some (t, c) \<Rightarrow> (Some t, errs)
      | None \<Rightarrow>
         (case gs n of
            Some (t, c) \<Rightarrow> (Some t, errs)
          | None \<Rightarrow>
             (if map_of fs n \<noteq> None
              then (None, errs @ [''Function '' @ n @ '' used as value in function '' @ fname f])
              else (None, errs @ [''Use of undeclared identifier '' @ n @ '' in function '' @ fname f]))))"
| "infer_type gs fs f scope (FuncCall n args) errs =
     (case map_of fs n of
        None \<Rightarrow> (None, errs @ [''Call to undeclared function '' @ n @ '' in function '' @ fname f])
      | Some callee \<Rightarrow>
         (let errs1 = (if length args \<noteq> length (params callee)
                       then errs @ [''Wrong number of arguments in call to '' @ n
                                    @ '' in function '' @ fname f]
                       else errs)
          in (Some (ret_type callee),
              infer_args gs fs f scope n (params callee) 0 args errs1)))"
| "infer_type gs fs f scope (BinaryOp op l r) errs =
     (let (ltype, errs1) = infer_type gs fs f scope l errs;
          (rtype, errs2) = infer_type gs fs f scope r errs1
      in if op \<in> set arith_ops then
           (if ltype = Some ''float'' \<or> rtype = Some ''float'' then (Some ''float'', errs2)
            else (Some ''int'', errs2))
         else if op \<in> set compare_ops then (Some ''bool'', errs2)
         else if op \<in> set logic_ops then (Some ''bool'', errs2)
         else if op \<in> set assign_ops then
           (case l of
              VarRef lname \<Rightarrow>
                (case scope lname of
                   Some (t, c) \<Rightarrow> (Some t, errs2)
                 | None \<Rightarrow> (case gs lname of Some (t, c) \<Rightarrow> (Some t, errs2)
                                            | None \<Rightarrow> (None, errs2)))
            | _ \<Rightarrow> (None, errs2))
         else (None, errs2))"
| "infer_type gs fs f scope _ errs = (None, errs)"
| "infer_args gs fs f scope n ps i [] errs = errs"
| "infer_args gs fs f scope n ps i (a # as) errs =
     (let (at, errs1) = infer_type gs fs f scope a errs;
          errs2 =
            (if i < length ps then
               (let expected = fst (ps ! i) in
                case at of
                  None \<Rightarrow> errs1
                | Some t \<Rightarrow>
                   (if t \<noteq> [] \<and> expected \<noteq> [] \<and> t \<noteq> expected
                       \<and> \<not> (t = ''int'' \<and> expected = ''float'')
                    then errs1 @ [''Type mismatch for argument '' @ str_nat (i + 1)
                                  @ '' in call to '' @ n @ '': expected '' @ expected
                                  @ '', got '' @ t]
                    else errs1))
             else errs1)
      in infer_args gs fs f scope n ps (i + 1) as errs2)"
  by pat_completeness auto
termination
  by (relation "measure (\<lambda>x. case x of
        Inl (gs, fs, f, scope, nd, errs) \<Rightarrow> size nd
      | Inr (gs, fs, f, scope, n, ps, i, as, errs) \<Rightarrow> size_list size as)") auto

text \<open>
  \<^verbatim>\<open>visit\<close>, the second closure of \<^verbatim>\<open>check_function\<close>. It updates the local table
  \<open>scope\<close> and appends to \<^verbatim>\<open>self.errors\<close>; both are passed in and returned.
  \<open>visit_list\<close> is the \<^verbatim>\<open>for\<close> loop over \<^verbatim>\<open>node.statements\<close> and over \<^verbatim>\<open>node.args\<close>.
  There is no branch for \<^verbatim>\<open>For\<close>, \<^verbatim>\<open>FuncDecl\<close> or a list: they reach the final
  \<^verbatim>\<open>else: pass\<close>.
\<close>

function (sequential)
  visit :: "scope_table \<Rightarrow> (string \<times> node) list \<Rightarrow> node \<Rightarrow> node
            \<Rightarrow> scope_table \<times> string list \<Rightarrow> scope_table \<times> string list"
  and visit_list :: "scope_table \<Rightarrow> (string \<times> node) list \<Rightarrow> node \<Rightarrow> node list
            \<Rightarrow> scope_table \<times> string list \<Rightarrow> scope_table \<times> string list"
where
  "visit gs fs f (Compound ss) st = visit_list gs fs f ss st"
| "visit gs fs f (VarDecl vt n init c) (scope, errs) =
     (let errs1 = (if scope n \<noteq> None
                   then errs @ [''Redeclaration of '' @ n @ '' in function '' @ fname f]
                   else errs);
          scope1 = scope(n \<mapsto> (vt, c))
      in case init of
           None \<Rightarrow> (scope1, errs1)
         | Some e \<Rightarrow>
            (if truthy e then
               (let (it, errs2) = infer_type gs fs f scope1 e errs1;
                    errs3 =
                      (case it of
                         None \<Rightarrow> errs2
                       | Some t \<Rightarrow>
                          (if t \<noteq> [] \<and> t \<noteq> vt \<and> \<not> (t = ''int'' \<and> vt = ''float'')
                           then errs2 @ [''Type mismatch in initializer for '' @ n @ '': '' @ t
                                         @ '' -> '' @ vt @ '' in function '' @ fname f]
                           else errs2))
                in visit gs fs f e (scope1, errs3))
             else (scope1, errs1)))"
| "visit gs fs f (If_node c t e) st =
     (let st1 = visit gs fs f c st;
          st2 = visit gs fs f t st1
      in case e of
           None \<Rightarrow> st2
         | Some eb \<Rightarrow> (if truthy eb then visit gs fs f eb st2 else st2))"
| "visit gs fs f (While c b) st = visit gs fs f b (visit gs fs f c st)"
| "visit gs fs f (Return eo) (scope, errs) =
     (case eo of
        None \<Rightarrow> (scope, errs)
      | Some e \<Rightarrow>
         (if truthy e then
            (let (rtype, errs1) = infer_type gs fs f scope e errs;
                 errs2 =
                   (if ret_type f \<noteq> ''void'' then
                      (case rtype of
                         None \<Rightarrow> errs1
                       | Some t \<Rightarrow>
                          (if t \<noteq> [] \<and> t \<noteq> ret_type f
                              \<and> \<not> (t = ''int'' \<and> ret_type f = ''float'')
                           then errs1 @ [''Return type mismatch in function '' @ fname f
                                         @ '': expected '' @ ret_type f @ '', got '' @ t]
                           else errs1))
                    else errs1)
             in visit gs fs f e (scope, errs2))
          else (scope, errs)))"
| "visit gs fs f (ExprStmt e) st = visit gs fs f e st"
| "visit gs fs f (BinaryOp op l r) (scope, errs) =
     (let errs2 =
            (if op \<in> set assign_ops then
               (case l of
                  VarRef lname \<Rightarrow>
                    (let errs1 =
                           (if (case scope lname of None \<Rightarrow> False | Some (t, c) \<Rightarrow> c)
                            then errs @ [''Assignment to const variable '' @ lname
                                         @ '' in function '' @ fname f]
                            else errs)
                     in if (case gs lname of None \<Rightarrow> False | Some (t, c) \<Rightarrow> c)
                        then errs1 @ [''Assignment to const global '' @ lname
                                      @ '' in function '' @ fname f]
                        else errs1)
                | _ \<Rightarrow> errs)
             else errs)
      in visit gs fs f r (visit gs fs f l (scope, errs2)))"
| "visit gs fs f (UnaryOp op e) st = visit gs fs f e st"
| "visit gs fs f (VarRef n) (scope, errs) =
     (if scope n = None \<and> gs n = None \<and> map_of fs n = None
      then (scope, errs @ [''Use of undeclared identifier '' @ n @ '' in function '' @ fname f])
      else (scope, errs))"
| "visit gs fs f (FuncCall n args) (scope, errs) =
     visit_list gs fs f args
       (scope, if map_of fs n = None
               then errs @ [''Call to undeclared function '' @ n @ '' in function '' @ fname f]
               else errs)"
| "visit gs fs f _ st = st"
| "visit_list gs fs f [] st = st"
| "visit_list gs fs f (s # ss) st = visit_list gs fs f ss (visit gs fs f s st)"
  by pat_completeness auto
termination
  by (relation "measure (\<lambda>x. case x of
        Inl (gs, fs, f, nd, st) \<Rightarrow> size nd
      | Inr (gs, fs, f, nds, st) \<Rightarrow> size_list size nds)") auto

text \<open>\<^verbatim>\<open>check_function\<close>: the local table starts from the parameters (a dict
  comprehension: a later parameter of the same name overwrites), then the body is
  visited. Only \<^verbatim>\<open>self.errors\<close> changes.\<close>

definition param_scope :: "(string \<times> string) list \<Rightarrow> scope_table" where
  "param_scope ps = fold (\<lambda>(typ, name) m. m(name \<mapsto> (typ, False))) ps Map.empty"

definition check_function :: "analyzer \<Rightarrow> node \<Rightarrow> analyzer" where
  "check_function a f =
     a\<lparr>errors := snd (visit (global_scope a) (functions a) f (body f)
                          (param_scope (params f), errors a))\<rparr>"

text \<open>\<^verbatim>\<open>analyze\<close>. \<open>collect\<close> is the first loop, over \<^verbatim>\<open>self.program.declarations\<close>;
  \<open>check_all\<close> is the second, over \<^verbatim>\<open>self.functions.items()\<close>. Nothing is reset at
  entry: the tables and the list are those the instance already holds.\<close>

fun collect :: "node list \<Rightarrow> analyzer \<Rightarrow> analyzer" where
  "collect [] a = a"
| "collect (d # ds) a =
     collect ds
       (case d of
          VarDecl vt n init c \<Rightarrow>
            (if global_scope a n \<noteq> None
             then a\<lparr>errors := errors a @ [''Redeclaration of global '' @ n]\<rparr>
             else a\<lparr>global_scope := (global_scope a)(n \<mapsto> (vt, c))\<rparr>)
        | FuncDecl rt n ps b \<Rightarrow>
            (if map_of (functions a) n \<noteq> None
             then a\<lparr>errors := errors a @ [''Redeclaration of function '' @ n]\<rparr>
             else a\<lparr>functions := functions a @ [(n, d)]\<rparr>)
        | _ \<Rightarrow> a)"

fun check_all :: "(string \<times> node) list \<Rightarrow> analyzer \<Rightarrow> analyzer" where
  "check_all [] a = a"
| "check_all ((name, fdecl) # rest) a = check_all rest (check_function a fdecl)"

definition analyze :: "analyzer \<Rightarrow> analyzer" where
  "analyze a =
     (let a1 = collect (declarations (program a)) a
      in check_all (functions a1) a1)"

section \<open>Scanner (src/src/lexer.py)\<close>

text \<open>
  A Python \<^verbatim>\<open>str\<close> is modelled as a \<open>string\<close>, a list of 8-bit characters: the model
  covers source text of code points below 256. There \<^verbatim>\<open>\d\<close> is \<^verbatim>\<open>0-9\<close>, and \<^verbatim>\<open>.\<close> is
  every character but the newline.
\<close>

datatype token = Token (ttype: string) (tvalue: string) (tline: int) (tcolumn: int)

definition KEYWORDS :: "string list" where
  "KEYWORDS = [''int'', ''float'', ''char'', ''bool'', ''if'', ''else'', ''for'', ''while'',
               ''do'', ''return'', ''const'', ''true'', ''false'', ''void'']"

definition newline :: char where "newline = CHR 0x0A"
definition tab :: char where "tab = CHR 0x09"
definition quote :: char where "quote = CHR 0x27"
definition backslash :: char where "backslash = CHR 0x5C"

definition is_digit :: "char \<Rightarrow> bool" where
  "is_digit c = (c \<in> set ''0123456789'')"

definition is_id_start :: "char \<Rightarrow> bool" where
  "is_id_start c =
     (c \<in> set ''ABCDEFGHIJKLMNOPQRSTUVWXYZabcdefghijklmnopqrstuvwxyz_'')"

definition is_id_char :: "char \<Rightarrow> bool" where
  "is_id_char c = (is_id_start c \<or> is_digit c)"

text \<open>
  One matcher per entry of \<^verbatim>\<open>token_specification\<close>: given the text from the current
  position on, the length of the match of that entry's pattern there, or \<open>None\<close>.
  The lazy \<^verbatim>\<open>[\s\S]*?\*/\<close> stops at the first \<^verbatim>\<open>*/\<close> after the opening \<^verbatim>\<open>/*\<close>
  (\<open>find_close\<close>); the greedy \<^verbatim>\<open>\d+\<close>, \<^verbatim>\<open>.*\<close> and \<^verbatim>\<open>[ \t]+\<close> take the longest run, and no
  shorter run lets the rest of their pattern match.
\<close>

definition m_COMMENT :: "string \<Rightarrow> nat option" where
  "m_COMMENT cs =
     (if take 2 cs = ''//'' then Some (2 + length (takeWhile (\<lambda>c. c \<noteq> newline) (drop 2 cs)))
      else None)"

fun find_close :: "string \<Rightarrow> nat option" where
  "find_close (a # b # cs) =
     (if a = CHR ''*'' \<and> b = CHR ''/'' then Some 0
      else map_option Suc (find_close (b # cs)))"
| "find_close _ = None"

definition m_MULTICOMMENT :: "string \<Rightarrow> nat option" where
  "m_MULTICOMMENT cs =
     (if take 2 cs = ''/*'' then map_option (\<lambda>k. 2 + k + 2) (find_close (drop 2 cs))
      else None)"

definition m_CHAR :: "string \<Rightarrow> nat option" where
  "m_CHAR cs =
     (case cs of
        q # b # rest \<Rightarrow>
          (if q \<noteq> quote then None
           else if b = backslash then
             (case rest of
                c # q2 # _ \<Rightarrow> (if c \<noteq> newline \<and> q2 = quote then Some 4 else None)
              | _ \<Rightarrow> None)
           else if b \<noteq> quote then
             (case rest of q2 # _ \<Rightarrow> (if q2 = quote then Some 3 else None) | _ \<Rightarrow> None)
           else None)
      | _ \<Rightarrow> None)"

definition m_FLOAT :: "string \<Rightarrow> nat option" where
  "m_FLOAT cs =
     (let n = length (takeWhile is_digit cs) in
      if n = 0 then None
      else (case drop n cs of
              d # rest \<Rightarrow>
                (let m = length (takeWhile is_digit rest) in
                 if d = CHR ''.'' \<and> m \<noteq> 0 then Some (n + 1 + m) else None)
            | [] \<Rightarrow> None))"

definition m_INT :: "string \<Rightarrow> nat option" where
  "m_INT cs = (let n = length (takeWhile is_digit cs) in if n = 0 then None else Some n)"

definition m_ID :: "string \<Rightarrow> nat option" where
  "m_ID cs =
     (case cs of
        c # rest \<Rightarrow> (if is_id_start c then Some (1 + length (takeWhile is_id_char rest)) else None)
      | [] \<Rightarrow> None)"

definition m_OP :: "string \<Rightarrow> nat option" where
  "m_OP cs =
     (if take 2 cs \<in> set [''=='', ''!='', ''<='', ''>='', ''||'', ''&&'', ''++'', ''--'',
                          ''+='', ''-='', ''*='', ''/='', ''%='']
      then Some 2 else None)"

definition m_SYMBOL :: "string \<Rightarrow> nat option" where
  "m_SYMBOL cs =
     (case cs of
        c # _ \<Rightarrow> (if c \<in> set ''+-*/%<>=!&|.,;:(){}[]'' then Some 1 else None)
      | [] \<Rightarrow> None)"

definition m_SKIP :: "string \<Rightarrow> nat option" where
  "m_SKIP cs =
     (let n = length (takeWhile (\<lambda>c. c = CHR '' '' \<or> c = tab) cs) in
      if n = 0 then None else Some n)"

definition m_NEWLINE :: "string \<Rightarrow> nat option" where
  "m_NEWLINE cs = (case cs of c # _ \<Rightarrow> (if c = newline then Some 1 else None) | [] \<Rightarrow> None)"

definition token_specification :: "(string \<times> (string \<Rightarrow> nat option)) list" where
  "token_specification =
     [(''COMMENT'', m_COMMENT), (''MULTICOMMENT'', m_MULTICOMMENT), (''CHAR'', m_CHAR),
      (''FLOAT'', m_FLOAT), (''INT'', m_INT), (''ID'', m_ID), (''OP'', m_OP),
      (''SYMBOL'', m_SYMBOL), (''SKIP'', m_SKIP), (''NEWLINE'', m_NEWLINE)]"

text \<open>The compiled regex is the alternation of the named groups in list order: at a given
  position the first group whose pattern matches there gives the match, and
  \<^verbatim>\<open>mo.lastgroup\<close> is its name.\<close>

fun first_match :: "(string \<times> (string \<Rightarrow> nat option)) list \<Rightarrow> string \<Rightarrow> (string \<times> nat) option" where
  "first_match [] cs = None"
| "first_match ((name, m) # rules) cs =
     (case m cs of Some n \<Rightarrow> Some (name, n) | None \<Rightarrow> first_match rules cs)"

definition match_at :: "string \<Rightarrow> (string \<times> nat) option" where
  "match_at cs = first_match token_specification cs"

lemma find_close_bound: "find_close cs = Some k \<Longrightarrow> k + 2 \<le> length cs"
  by (induction cs arbitrary: k rule: find_close.induct) (auto split: if_splits)

lemma match_at_length: "match_at cs = Some (kind, n) \<Longrightarrow> 0 < n"
  by (auto simp: match_at_def token_specification_def m_COMMENT_def m_MULTICOMMENT_def
        m_CHAR_def m_FLOAT_def m_INT_def m_ID_def m_OP_def m_SYMBOL_def m_SKIP_def
        m_NEWLINE_def Let_def
      split: option.splits if_splits list.splits)

text \<open>
  \<^verbatim>\<open>tokenize\<close>. \<open>scan\<close> is the loop over \<^verbatim>\<open>self.regex.finditer(self.code)\<close>: \<open>pos\<close> is
  where the search for the next match starts. Where nothing matches the search moves on
  by one character; after a match (never empty) it resumes at the match's end.
\<close>

function scan :: "string \<Rightarrow> nat \<Rightarrow> int \<Rightarrow> nat \<Rightarrow> token list \<Rightarrow> token list \<times> int" where
  "scan code pos line_num line_start tokens =
     (if length code \<le> pos then (tokens, line_num)
      else
        (case match_at (drop pos code) of
           None \<Rightarrow> scan code (pos + 1) line_num line_start tokens
         | Some (kind, n) \<Rightarrow>
            (let val = take n (drop pos code);
                 column = int pos - int line_start + 1
             in if kind = ''NEWLINE'' then scan code (pos + n) (line_num + 1) (pos + n) tokens
                else if kind = ''SKIP'' \<or> kind = ''COMMENT'' \<or> kind = ''MULTICOMMENT''
                  then scan code (pos + n) line_num line_start tokens
                else scan code (pos + n) line_num line_start
                       (tokens @ [Token (if kind = ''ID'' \<and> val \<in> set KEYWORDS then val else kind)
                                        val line_num column]))))"
  by pat_completeness auto
termination
  by (relation "measure (\<lambda>(code, pos, line_num, line_start, tokens). length code - pos)")
     (auto dest: match_at_length)

definition tokenize :: "string \<Rightarrow> token list" where
  "tokenize code =
     (let (tokens, line_num) = scan code 0 1 0 [] in tokens @ [Token ''EOF'' [] line_num 1])"

section \<open>Parser (src/src/parser.py)\<close>

text \<open>
  \<^verbatim>\<open>ParseError\<close> carries its message. \<open>IndexError\<close> is \<^verbatim>\<open>self.tokens[self.pos]\<close> read
  past the last token, \<open>ValueError\<close> a failing \<^verbatim>\<open>int(...)\<close>. \<open>OutOfFuel\<close> belongs to the
  model only: the recursive parsing functions take a bound on their call depth.
\<close>

datatype error = ParseError string | IndexError | ValueError | OutOfFuel

definition str_int :: "int \<Rightarrow> string" where
  "str_int i = (if i < 0 then ''-'' @ str_nat (nat (- i)) else str_nat (nat i))"

text \<open>The parser's state is the token list (never changed) and \<^verbatim>\<open>self.pos\<close>; a function
  that consumes tokens returns the new position beside its result.\<close>

definition peek :: "token list \<Rightarrow> nat \<Rightarrow> error + token" where
  "peek toks pos = (if pos < length toks then Inr (toks ! pos) else Inl IndexError)"

definition next_tok :: "token list \<Rightarrow> nat \<Rightarrow> error + (token \<times> nat)" where
  "next_tok toks pos = (if pos < length toks then Inr (toks ! pos, pos + 1) else Inl IndexError)"

definition expect :: "token list \<Rightarrow> nat \<Rightarrow> string \<Rightarrow> string option \<Rightarrow> error + (token \<times> nat)" where
  "expect toks pos typ val =
     (case peek toks pos of
        Inl e \<Rightarrow> Inl e
      | Inr tok \<Rightarrow>
         (if ttype tok \<noteq> typ \<and> (val = None \<or> Some (tvalue tok) \<noteq> val)
          then Inl (ParseError (''Expected '' @ typ @ '' '' @ (case val of None \<Rightarrow> [] | Some v \<Rightarrow> v)
                               @ '' got '' @ ttype tok @ '' '' @ tvalue tok @ '' at ''
                               @ str_int (tline tok) @ '':'' @ str_int (tcolumn tok)))
          else next_tok toks pos))"

definition PRECEDENCE :: "(string \<times> nat) list" where
  "PRECEDENCE =
     [(''||'', 1), (''&&'', 2), (''=='', 3), (''!='', 3),
      (''<'', 4), (''>'', 4), (''<='', 4), (''>='', 4),
      (''+'', 5), (''-'', 5), (''*'', 6), (''/'', 6), (''%'', 6),
      (''='', 0), (''+='', 0), (''-='', 0), (''*='', 0), (''/='', 0), (''%='', 0)]"

text \<open>\<^verbatim>\<open>int(tok.value)\<close> on the lexeme of an \<^verbatim>\<open>INT\<close> token, a non-empty run of digits.\<close>

definition digit_val :: "char \<Rightarrow> int" where
  "digit_val c = int (of_char c) - 48"

definition py_int :: "string \<Rightarrow> int option" where
  "py_int s =
     (if s \<noteq> [] \<and> list_all is_digit s then Some (foldl (\<lambda>acc c. 10 * acc + digit_val c) 0 s)
      else None)"

text \<open>\<^verbatim>\<open>str.upper\<close> on a token type, which is ASCII.\<close>

definition upper_char :: "char \<Rightarrow> char" where
  "upper_char c =
     (if c \<in> set ''abcdefghijklmnopqrstuvwxyz'' then char_of (of_char c - (32::nat)) else c)"

definition upper :: "string \<Rightarrow> string" where
  "upper s = map upper_char s"

text \<open>The loop \<^verbatim>\<open>while self.peek().value in ('++','--')\<close> of \<^verbatim>\<open>parse_expression\<close>.\<close>

function postfix_loop :: "token list \<Rightarrow> nat \<Rightarrow> node \<Rightarrow> error + (node \<times> nat)" where
  "postfix_loop toks pos left =
     (case peek toks pos of
        Inl e \<Rightarrow> Inl e
      | Inr tok \<Rightarrow>
         (if tvalue tok \<in> set [''++'', ''--'']
          then postfix_loop toks (pos + 1) (UnaryOp (''post'' @ tvalue tok) left)
          else Inr (left, pos)))"
  by pat_completeness auto
termination
  by (relation "measure (\<lambda>(toks, pos, left). length toks - pos)")
     (auto simp: peek_def split: if_splits)

text \<open>
  \<^verbatim>\<open>parse_expression\<close>. \<open>fuel\<close> bounds the depth of the calls; a \<^verbatim>\<open>self.next()\<close> that
  follows a successful \<^verbatim>\<open>self.peek()\<close> at the same position is \<open>pos + 1\<close>.
  \<open>call_args\<close> is the \<^verbatim>\<open>while True\<close> loop that reads the arguments of a call,
  \<open>binary_loop\<close> the final \<^verbatim>\<open>while True\<close> loop over binary operators.
\<close>

function
  parse_expression :: "nat \<Rightarrow> token list \<Rightarrow> nat \<Rightarrow> nat \<Rightarrow> error + (node \<times> nat)"
  and call_args :: "nat \<Rightarrow> token list \<Rightarrow> nat \<Rightarrow> node list \<Rightarrow> error + (node list \<times> nat)"
  and binary_loop :: "nat \<Rightarrow> token list \<Rightarrow> nat \<Rightarrow> nat \<Rightarrow> node \<Rightarrow> error + (node \<times> nat)"
where
  "parse_expression fuel toks pos min_prec =
     (if fuel = 0 then Inl OutOfFuel else
      case peek toks pos of
        Inl e \<Rightarrow> Inl e
      | Inr tok \<Rightarrow>
         (if tvalue tok \<in> set [''!'', ''+'', ''-'', ''++'', ''--''] then
            (case parse_expression (fuel - 1) toks (pos + 1) 7 of
               Inl e \<Rightarrow> Inl e
             | Inr (expr, pos1) \<Rightarrow>
                Inr (UnaryOp (if tvalue tok \<notin> set [''++'', ''--''] then tvalue tok
                              else ''pre'' @ tvalue tok) expr, pos1))
          else
            (case
               (if ttype tok = ''INT'' then
                  (case py_int (tvalue tok) of
                     None \<Rightarrow> Inl ValueError
                   | Some i \<Rightarrow> Inr (Literal_node (IntV i) ''int'', pos + 1))
                else if ttype tok = ''FLOAT'' then
                  Inr (Literal_node (FloatV (tvalue tok)) ''float'', pos + 1)
                else if ttype tok = ''CHAR'' then
                  Inr (Literal_node (StrV (butlast (tl (tvalue tok)))) ''char'', pos + 1)
                else if ttype tok \<in> set [''true'', ''false''] then
                  Inr (Literal_node (BoolV (ttype tok = ''true'')) ''bool'', pos + 1)
                else if ttype tok = ''ID'' then
                  (case peek toks (pos + 1) of
                     Inl e \<Rightarrow> Inl e
                   | Inr t2 \<Rightarrow>
                      (if tvalue t2 = ''('' then
                         (case peek toks (pos + 2) of
                            Inl e \<Rightarrow> Inl e
                          | Inr t3 \<Rightarrow>
                             (case (if tvalue t3 \<noteq> '')''
                                    then call_args (fuel - 1) toks (pos + 2) []
                                    else Inr ([], pos + 2)) of
                                Inl e \<Rightarrow> Inl e
                              | Inr (args, pos1) \<Rightarrow>
                                 (case expect toks pos1 ''SYMBOL'' (Some '')'') of
                                    Inl e \<Rightarrow> Inl e
                                  | Inr (t4, pos2) \<Rightarrow> Inr (FuncCall (tvalue tok) args, pos2))))
                       else Inr (VarRef (tvalue tok), pos + 1)))
                else if tvalue tok = ''('' then
                  (case parse_expression (fuel - 1) toks (pos + 1) 0 of
                     Inl e \<Rightarrow> Inl e
                   | Inr (inner, pos1) \<Rightarrow>
                      (case expect toks pos1 ''SYMBOL'' (Some '')'') of
                         Inl e \<Rightarrow> Inl e
                       | Inr (t4, pos2) \<Rightarrow> Inr (inner, pos2)))
                else Inl (ParseError (''Unexpected expression token '' @ ttype tok @ '' ''
                                      @ tvalue tok @ '' at '' @ str_int (tline tok) @ '':''
                                      @ str_int (tcolumn tok)))) of
               Inl e \<Rightarrow> Inl e
             | Inr (left, pos1) \<Rightarrow>
                (case postfix_loop toks pos1 left of
                   Inl e \<Rightarrow> Inl e
                 | Inr (left2, pos2) \<Rightarrow> binary_loop (fuel - 1) toks pos2 min_prec left2))))"
| "call_args fuel toks pos args =
     (if fuel = 0 then Inl OutOfFuel else
      case parse_expression (fuel - 1) toks pos 0 of
        Inl e \<Rightarrow> Inl e
      | Inr (a, pos1) \<Rightarrow>
         (case peek toks pos1 of
            Inl e \<Rightarrow> Inl e
          | Inr t \<Rightarrow>
             (if tvalue t = '','' then call_args (fuel - 1) toks (pos1 + 1) (args @ [a])
              else Inr (args @ [a], pos1))))"
| "binary_loop fuel toks pos min_prec left =
     (if fuel = 0 then Inl OutOfFuel else
      case peek toks pos of
        Inl e \<Rightarrow> Inl e
      | Inr op_tok \<Rightarrow>
         (case (if ttype op_tok \<in> set [''OP'', ''SYMBOL''] then map_of PRECEDENCE (tvalue op_tok)
                else None) of
            None \<Rightarrow> Inr (left, pos)
          | Some prec \<Rightarrow>
             (if min_prec \<le> prec then
                (case parse_expression (fuel - 1) toks (pos + 1)
                        (if tvalue op_tok \<in> set assign_ops then prec else prec + 1) of
                   Inl e \<Rightarrow> Inl e
                 | Inr (right, pos1) \<Rightarrow>
                    binary_loop (fuel - 1) toks pos1 min_prec (BinaryOp (tvalue op_tok) left right))
              else Inr (left, pos))))"
  by pat_completeness auto
termination
  by (relation "measure (\<lambda>x. case x of
        Inl (fuel, toks, pos, min_prec) \<Rightarrow> fuel
      | Inr (Inl (fuel, toks, pos, args)) \<Rightarrow> fuel
      | Inr (Inr (fuel, toks, pos, min_prec, left)) \<Rightarrow> fuel)") auto

text \<open>The \<^verbatim>\<open>while True\<close> loop of \<^verbatim>\<open>parse_typed_declaration\<close> that reads the parameters:
  any token is taken as the type, then an \<^verbatim>\<open>ID\<close> is expected.\<close>

function parse_params ::
  "token list \<Rightarrow> nat \<Rightarrow> (string \<times> string) list \<Rightarrow> error + ((string \<times> string) list \<times> nat)" where
  "parse_params toks pos ps =
     (case next_tok toks pos of
        Inl e \<Rightarrow> Inl e
      | Inr (ptok, pos1) \<Rightarrow>
         (case expect toks pos1 ''ID'' None of
            Inl e \<Rightarrow> Inl e
          | Inr (ntok, pos2) \<Rightarrow>
             (case peek toks pos2 of
                Inl e \<Rightarrow> Inl e
              | Inr t \<Rightarrow>
                 (if tvalue t = '',''
                  then parse_params toks (pos2 + 1) (ps @ [(tvalue ptok, tvalue ntok)])
                  else Inr (ps @ [(tvalue ptok, tvalue ntok)], pos2)))))"
  by pat_completeness auto
termination
  by (relation "measure (\<lambda>(toks, pos, ps). length toks - pos)")
     (auto simp: peek_def next_tok_def expect_def split: if_splits)

text \<open>The loop \<^verbatim>\<open>while self.peek().value == ','\<close> over the further declarators of a
  variable declaration.\<close>

function declarators ::
  "nat \<Rightarrow> token list \<Rightarrow> nat \<Rightarrow> string \<Rightarrow> bool \<Rightarrow> node list \<Rightarrow> error + (node list \<times> nat)" where
  "declarators fuel toks pos typ is_const decls =
     (if fuel = 0 then Inl OutOfFuel else
      case peek toks pos of
        Inl e \<Rightarrow> Inl e
      | Inr t \<Rightarrow>
         (if tvalue t = '','' then
            (case expect toks (pos + 1) ''ID'' None of
               Inl e \<Rightarrow> Inl e
             | Inr (ntok, pos1) \<Rightarrow>
                (case peek toks pos1 of
                   Inl e \<Rightarrow> Inl e
                 | Inr t1 \<Rightarrow>
                    (case (if tvalue t1 = ''='' \<or> (ttype t1 = ''OP'' \<and> tvalue t1 = ''='')
                           then (case parse_expression (fuel - 1) toks (pos1 + 1) 0 of
                                   Inl e \<Rightarrow> Inl e
                                 | Inr (e, p) \<Rightarrow> Inr (Some e, p))
                           else Inr (None, pos1)) of
                       Inl e \<Rightarrow> Inl e
                     | Inr (init, pos2) \<Rightarrow>
                        declarators (fuel - 1) toks pos2 typ is_const
                          (decls @ [VarDecl typ (tvalue ntok) init is_const]))))
          else Inr (decls, pos)))"
  by pat_completeness auto
termination
  by (relation "measure (\<lambda>(fuel, toks, pos, typ, is_const, decls). fuel)") auto

text \<open>A statement or declaration that came back as a Python list is spliced into the
  enclosing list (\<^verbatim>\<open>extend\<close>), anything else is appended.\<close>

definition add_result :: "node list \<Rightarrow> node \<Rightarrow> node list" where
  "add_result xs d = (case d of NodeList ds \<Rightarrow> xs @ ds | _ \<Rightarrow> xs @ [d])"

definition type_keywords :: "string list" where
  "type_keywords = [''int'', ''float'', ''char'', ''bool'', ''const'']"

text \<open>
  \<^verbatim>\<open>parse_declaration\<close>, \<^verbatim>\<open>parse_typed_declaration\<close>, \<^verbatim>\<open>parse_compound\<close> and
  \<^verbatim>\<open>parse_statement\<close>; \<open>statements\<close> is the loop \<^verbatim>\<open>while self.peek().value != '}'\<close> of
  \<^verbatim>\<open>parse_compound\<close> together with the \<^verbatim>\<open>self.next()\<close> that consumes the brace.
  A variable declaration returns the list of its declarators, as \<open>NodeList\<close>.
\<close>

function
  parse_declaration :: "nat \<Rightarrow> token list \<Rightarrow> nat \<Rightarrow> error + (node \<times> nat)"
  and parse_typed_declaration :: "nat \<Rightarrow> token list \<Rightarrow> nat \<Rightarrow> error + (node \<times> nat)"
  and parse_compound :: "nat \<Rightarrow> token list \<Rightarrow> nat \<Rightarrow> error + (node \<times> nat)"
  and statements :: "nat \<Rightarrow> token list \<Rightarrow> nat \<Rightarrow> node list \<Rightarrow> error + (node list \<times> nat)"
  and parse_statement :: "nat \<Rightarrow> token list \<Rightarrow> nat \<Rightarrow> error + (node \<times> nat)"
where
  "parse_declaration fuel toks pos =
     (if fuel = 0 then Inl OutOfFuel else
      case peek toks pos of
        Inl e \<Rightarrow> Inl e
      | Inr tok \<Rightarrow>
         (if ttype tok = ''const'' then parse_typed_declaration (fuel - 1) toks pos
          else if ttype tok \<in> set [''int'', ''float'', ''char'', ''bool'', ''void'']
                  \<or> upper (ttype tok) \<in> set [''INT'', ''FLOAT'', ''CHAR'', ''BOOL'', ''VOID'']
            then parse_typed_declaration (fuel - 1) toks pos
          else Inl (ParseError (''Unexpected token '' @ ttype tok @ '' at ''
                                @ str_int (tline tok) @ '':'' @ str_int (tcolumn tok)))))"
| "parse_typed_declaration fuel toks pos =
     (if fuel = 0 then Inl OutOfFuel else
      case peek toks pos of
        Inl e \<Rightarrow> Inl e
      | Inr tok \<Rightarrow>
         (let is_const = (ttype tok = ''const'') in
          case next_tok toks (if is_const then pos + 1 else pos) of
            Inl e \<Rightarrow> Inl e
          | Inr (ttok, pos1) \<Rightarrow>
             (case expect toks pos1 ''ID'' None of
                Inl e \<Rightarrow> Inl e
              | Inr (name_tok, pos2) \<Rightarrow>
                 (case peek toks pos2 of
                    Inl e \<Rightarrow> Inl e
                  | Inr t \<Rightarrow>
                     (if tvalue t = ''('' then
                        (case peek toks (pos2 + 1) of
                           Inl e \<Rightarrow> Inl e
                         | Inr t2 \<Rightarrow>
                            (case (if tvalue t2 \<noteq> '')'' then parse_params toks (pos2 + 1) []
                                   else Inr ([], pos2 + 1)) of
                               Inl e \<Rightarrow> Inl e
                             | Inr (ps, pos3) \<Rightarrow>
                                (case expect toks pos3 ''SYMBOL'' (Some '')'') of
                                   Inl e \<Rightarrow> Inl e
                                 | Inr (t3, pos4) \<Rightarrow>
                                    (case parse_compound (fuel - 1) toks pos4 of
                                       Inl e \<Rightarrow> Inl e
                                     | Inr (b, pos5) \<Rightarrow>
                                        Inr (FuncDecl (tvalue ttok) (tvalue name_tok) ps b, pos5)))))
                      else
                        (case (if tvalue t = ''='' \<or> (ttype t = ''OP'' \<and> tvalue t = ''='')
                               then (case parse_expression (fuel - 1) toks (pos2 + 1) 0 of
                                       Inl e \<Rightarrow> Inl e
                                     | Inr (e, p) \<Rightarrow> Inr (Some e, p))
                               else Inr (None, pos2)) of
                           Inl e \<Rightarrow> Inl e
                         | Inr (init, pos3) \<Rightarrow>
                            (case declarators (fuel - 1) toks pos3 (tvalue ttok) is_const
                                    [VarDecl (tvalue ttok) (tvalue name_tok) init is_const] of
                               Inl e \<Rightarrow> Inl e
                             | Inr (decls, pos4) \<Rightarrow>
                                (case expect toks pos4 ''SYMBOL'' (Some '';'') of
                                   Inl e \<Rightarrow> Inl e
                                 | Inr (t3, pos5) \<Rightarrow> Inr (NodeList decls, pos5)))))))))"
| "parse_compound fuel toks pos =
     (if fuel = 0 then Inl OutOfFuel else
      case peek toks pos of
        Inl e \<Rightarrow> Inl e
      | Inr t \<Rightarrow>
         (if tvalue t \<noteq> ''{'' then Inl (ParseError ''Expected { for compound'')
          else (case statements (fuel - 1) toks (pos + 1) [] of
                  Inl e \<Rightarrow> Inl e
                | Inr (stmts, pos1) \<Rightarrow> Inr (Compound stmts, pos1))))"
| "statements fuel toks pos stmts =
     (if fuel = 0 then Inl OutOfFuel else
      case peek toks pos of
        Inl e \<Rightarrow> Inl e
      | Inr t \<Rightarrow>
         (if tvalue t \<noteq> ''}'' then
            (case parse_statement (fuel - 1) toks pos of
               Inl e \<Rightarrow> Inl e
             | Inr (s, pos1) \<Rightarrow> statements (fuel - 1) toks pos1 (add_result stmts s))
          else Inr (stmts, pos + 1)))"
| "parse_statement fuel toks pos =
     (if fuel = 0 then Inl OutOfFuel else
      case peek toks pos of
        Inl e \<Rightarrow> Inl e
      | Inr tok \<Rightarrow>
         (if ttype tok = ''return'' then
            (case peek toks (pos + 1) of
               Inl e \<Rightarrow> Inl e
             | Inr t \<Rightarrow>
                (if tvalue t = '';'' then Inr (Return None, pos + 2)
                 else (case parse_expression (fuel - 1) toks (pos + 1) 0 of
                         Inl e \<Rightarrow> Inl e
                       | Inr (expr, pos1) \<Rightarrow>
                          (case expect toks pos1 ''SYMBOL'' (Some '';'') of
                             Inl e \<Rightarrow> Inl e
                           | Inr (t1, pos2) \<Rightarrow> Inr (Return (Some expr), pos2)))))
          else if tvalue tok = ''{'' then parse_compound (fuel - 1) toks pos
          else if ttype tok = ''if'' then
            (case expect toks (pos + 1) ''SYMBOL'' (Some ''('') of
               Inl e \<Rightarrow> Inl e
             | Inr (t1, pos1) \<Rightarrow>
                (case parse_expression (fuel - 1) toks pos1 0 of
                   Inl e \<Rightarrow> Inl e
                 | Inr (cond, pos2) \<Rightarrow>
                    (case expect toks pos2 ''SYMBOL'' (Some '')'') of
                       Inl e \<Rightarrow> Inl e
                     | Inr (t2, pos3) \<Rightarrow>
                        (case parse_statement (fuel - 1) toks pos3 of
                           Inl e \<Rightarrow> Inl e
                         | Inr (thenb, pos4) \<Rightarrow>
                            (case peek toks pos4 of
                               Inl e \<Rightarrow> Inl e
                             | Inr t3 \<Rightarrow>
                                (if ttype t3 = ''else'' then
                                   (case parse_statement (fuel - 1) toks (pos4 + 1) of
                                      Inl e \<Rightarrow> Inl e
                                    | Inr (elseb, pos5) \<Rightarrow>
                                       Inr (If_node cond thenb (Some elseb), pos5))
                                 else Inr (If_node cond thenb None, pos4)))))))
          else if ttype tok = ''while'' then
            (case expect toks (pos + 1) ''SYMBOL'' (Some ''('') of
               Inl e \<Rightarrow> Inl e
             | Inr (t1, pos1) \<Rightarrow>
                (case parse_expression (fuel - 1) toks pos1 0 of
                   Inl e \<Rightarrow> Inl e
                 | Inr (cond, pos2) \<Rightarrow>
                    (case expect toks pos2 ''SYMBOL'' (Some '')'') of
                       Inl e \<Rightarrow> Inl e
                     | Inr (t2, pos3) \<Rightarrow>
                        (case parse_statement (fuel - 1) toks pos3 of
                           Inl e \<Rightarrow> Inl e
                         | Inr (b, pos4) \<Rightarrow> Inr (While cond b, pos4)))))
          else if ttype tok = ''for'' then
            (case expect toks (pos + 1) ''SYMBOL'' (Some ''('') of
               Inl e \<Rightarrow> Inl e
             | Inr (t1, pos1) \<Rightarrow>
                (case peek toks pos1 of
                   Inl e \<Rightarrow> Inl e
                 | Inr ti \<Rightarrow>
                    (case (if tvalue ti = '';'' then Inr (None, pos1 + 1)
                           else if ttype ti \<in> set type_keywords then
                             (case parse_declaration (fuel - 1) toks pos1 of
                                Inl e \<Rightarrow> Inl e
                              | Inr (d, p) \<Rightarrow> Inr (Some d, p))
                           else
                             (case parse_expression (fuel - 1) toks pos1 0 of
                                Inl e \<Rightarrow> Inl e
                              | Inr (e1, p) \<Rightarrow>
                                 (case expect toks p ''SYMBOL'' (Some '';'') of
                                    Inl e \<Rightarrow> Inl e
                                  | Inr (t2, p2) \<Rightarrow> Inr (Some e1, p2)))) of
                       Inl e \<Rightarrow> Inl e
                     | Inr (init, pos2) \<Rightarrow>
                        (case peek toks pos2 of
                           Inl e \<Rightarrow> Inl e
                         | Inr tc \<Rightarrow>
                            (case (if tvalue tc = '';'' then Inr (None, pos2 + 1)
                                   else
                                     (case parse_expression (fuel - 1) toks pos2 0 of
                                        Inl e \<Rightarrow> Inl e
                                      | Inr (e2, p) \<Rightarrow>
                                         (case expect toks p ''SYMBOL'' (Some '';'') of
                                            Inl e \<Rightarrow> Inl e
                                          | Inr (t3, p2) \<Rightarrow> Inr (Some e2, p2)))) of
                               Inl e \<Rightarrow> Inl e
                             | Inr (cond, pos3) \<Rightarrow>
                                (case peek toks pos3 of
                                   Inl e \<Rightarrow> Inl e
                                 | Inr tp \<Rightarrow>
                                    (case (if tvalue tp = '')'' then Inr (None, pos3)
                                           else
                                             (case parse_expression (fuel - 1) toks pos3 0 of
                                                Inl e \<Rightarrow> Inl e
                                              | Inr (e3, p) \<Rightarrow> Inr (Some e3, p))) of
                                       Inl e \<Rightarrow> Inl e
                                     | Inr (post, pos4) \<Rightarrow>
                                        (case expect toks pos4 ''SYMBOL'' (Some '')'') of
                                           Inl e \<Rightarrow> Inl e
                                         | Inr (t4, pos5) \<Rightarrow>
                                            (case parse_statement (fuel - 1) toks pos5 of
                                               Inl e \<Rightarrow> Inl e
                                             | Inr (b, pos6) \<Rightarrow>
                                                Inr (For init cond post b, pos6))))))))))
          else if ttype tok = ''do'' then
            (case parse_statement (fuel - 1) toks (pos + 1) of
               Inl e \<Rightarrow> Inl e
             | Inr (b, pos1) \<Rightarrow>
                (case peek toks pos1 of
                   Inl e \<Rightarrow> Inl e
                 | Inr tw \<Rightarrow>
                    (if ttype tw \<noteq> ''while'' then Inl (ParseError ''Expected while after do-block'')
                     else
                       (case expect toks (pos1 + 1) ''SYMBOL'' (Some ''('') of
                          Inl e \<Rightarrow> Inl e
                        | Inr (t1, pos2) \<Rightarrow>
                           (case parse_expression (fuel - 1) toks pos2 0 of
                              Inl e \<Rightarrow> Inl e
                            | Inr (cond, pos3) \<Rightarrow>
                               (case expect toks pos3 ''SYMBOL'' (Some '')'') of
                                  Inl e \<Rightarrow> Inl e
                                | Inr (t2, pos4) \<Rightarrow>
                                   (case expect toks pos4 ''SYMBOL'' (Some '';'') of
                                      Inl e \<Rightarrow> Inl e
                                    | Inr (t3, pos5) \<Rightarrow> Inr (While cond b, pos5))))))))
          else if ttype tok \<in> set type_keywords then parse_typed_declaration (fuel - 1) toks pos
          else
            (case parse_expression (fuel - 1) toks pos 0 of
               Inl e \<Rightarrow> Inl e
             | Inr (expr, pos1) \<Rightarrow>
                (case expect toks pos1 ''SYMBOL'' (Some '';'') of
                   Inl e \<Rightarrow> Inl e
                 | Inr (t1, pos2) \<Rightarrow> Inr (ExprStmt expr, pos2)))))"
  by pat_completeness auto
termination
  by (relation "measure (\<lambda>x. case x of
        Inl (Inl (fuel, toks, pos)) \<Rightarrow> fuel
      | Inl (Inr (fuel, toks, pos)) \<Rightarrow> fuel
      | Inr (Inl (fuel, toks, pos)) \<Rightarrow> fuel
      | Inr (Inr (Inl (fuel, toks, pos, stmts))) \<Rightarrow> fuel
      | Inr (Inr (Inr (fuel, toks, pos))) \<Rightarrow> fuel)") auto

text \<open>\<^verbatim>\<open>parse\<close>: \<open>parse_loop\<close> is the loop \<^verbatim>\<open>while self.peek().type != 'EOF'\<close>; the
  constructor \<^verbatim>\<open>Parser(code)\<close> tokenizes the text and starts at position 0.\<close>

function parse_loop :: "nat \<Rightarrow> token list \<Rightarrow> nat \<Rightarrow> node list \<Rightarrow> error + program" where
  "parse_loop fuel toks pos decls =
     (if fuel = 0 then Inl OutOfFuel else
      case peek toks pos of
        Inl e \<Rightarrow> Inl e
      | Inr t \<Rightarrow>
         (if ttype t \<noteq> ''EOF'' then
            (case parse_declaration (fuel - 1) toks pos of
               Inl e \<Rightarrow> Inl e
             | Inr (d, pos1) \<Rightarrow> parse_loop (fuel - 1) toks pos1 (add_result decls d))
          else Inr (Program decls)))"
  by pat_completeness auto
termination
  by (relation "measure (\<lambda>(fuel, toks, pos, decls). fuel)") auto

definition parse :: "nat \<Rightarrow> string \<Rightarrow> error + program" where
  "parse fuel code = parse_loop fuel (tokenize code) 0 []"

text \<open>The equations of the loops and of the parsing functions unfold without end; they
  are applied by hand or by \<open>code_simp\<close>.\<close>

declare scan.simps [simp del] postfix_loop.simps [simp del]
  parse_expression.simps [simp del] call_args.simps [simp del] binary_loop.simps [simp del]
  parse_params.simps [simp del] declarators.simps [simp del]
  parse_declaration.simps [simp del] parse_typed_declaration.simps [simp del]
  parse_compound.simps [simp del] statements.simps [simp del] parse_statement.simps [simp del]
  parse_loop.simps [simp del]

section \<open>The pipeline (src/run.py)\<close>

text \<open>\<^verbatim>\<open>main\<close> without its input and output: parse the text; on an exception stop with
  it; otherwise analyze the tree with a new analyzer and hand back \<^verbatim>\<open>sem.errors\<close>.\<close>

definition run :: "nat \<Rightarrow> string \<Rightarrow> error + string list" where
  "run fuel code =
     (case parse fuel code of
        Inl e \<Rightarrow> Inl e
      | Inr prog \<Rightarrow> Inr (errors (analyze (SemanticAnalyzer prog))))"

section \<open>Notions used to state the properties\<close>

text \<open>\<open>prepend e0 st\<close> is the state \<open>st\<close> of \<open>visit\<close> with \<open>e0\<close> put in front of its
  diagnostics.\<close>

definition prepend :: "string list \<Rightarrow> scope_table \<times> string list \<Rightarrow> scope_table \<times> string list" where
  "prepend e0 st = (fst st, e0 @ snd st)"

text \<open>The names of the variable declarations and of the function declarations in a list
  of top-level declarations, in order; the redeclaration diagnostic that \<open>collect\<close> appends
  for a declaration whose name is already registered; the diagnostics that checking one
  function adds, and those of the whole second loop of \<open>analyze\<close>, given the tables.\<close>

fun var_names :: "node list \<Rightarrow> string list" where
  "var_names [] = []"
| "var_names (VarDecl vt n init c # ds) = n # var_names ds"
| "var_names (d # ds) = var_names ds"

fun fun_names :: "node list \<Rightarrow> string list" where
  "fun_names [] = []"
| "fun_names (FuncDecl rt n ps b # ds) = n # fun_names ds"
| "fun_names (d # ds) = fun_names ds"

fun redeclaration :: "node \<Rightarrow> string list" where
  "redeclaration (VarDecl vt n init c) = [''Redeclaration of global '' @ n]"
| "redeclaration (FuncDecl rt n ps b) = [''Redeclaration of function '' @ n]"
| "redeclaration d = []"

definition function_diags :: "scope_table \<Rightarrow> (string \<times> node) list \<Rightarrow> node \<Rightarrow> string list" where
  "function_diags gs fs f = snd (visit gs fs f (body f) (param_scope (params f), []))"

definition pass2_diags :: "analyzer \<Rightarrow> string list" where
  "pass2_diags a =
     concat (map (\<lambda>(n, fd). function_diags (global_scope a) (functions a) fd) (functions a))"

text \<open>The nodes that \<open>parse_expression\<close> builds: literals, references, calls, unary and
  binary operators.\<close>

fun is_expr :: "node \<Rightarrow> bool" where
  "is_expr (Literal_node v t) = True"
| "is_expr (VarRef n) = True"
| "is_expr (UnaryOp op e) = is_expr e"
| "is_expr (BinaryOp op l r) = (is_expr l \<and> is_expr r)"
| "is_expr (FuncCall n args) = list_all is_expr args"
| "is_expr _ = False"

section \<open>Properties of the scanner\<close>

lemma match_at_kind:
  "match_at cs = Some (kind, n) \<Longrightarrow>
     kind \<in> set [''COMMENT'', ''MULTICOMMENT'', ''CHAR'', ''FLOAT'', ''INT'', ''ID'', ''OP'',
                 ''SYMBOL'', ''SKIP'', ''NEWLINE'']"
  by (auto simp: match_at_def token_specification_def split: option.splits)

lemma keyword_not_eof: "v \<in> set KEYWORDS \<Longrightarrow> v \<noteq> ''EOF''"
  by (auto simp: KEYWORDS_def)

lemma scan_no_eof:
  "\<forall>t\<in>set tokens. ttype t \<noteq> ''EOF'' \<Longrightarrow>
   \<forall>t\<in>set (fst (scan code pos line_num line_start tokens)). ttype t \<noteq> ''EOF''"
proof (induction code pos line_num line_start tokens rule: scan.induct)
  case (1 code pos line_num line_start tokens)
  show ?case
  proof (cases "length code \<le> pos")
    case True
    then show ?thesis using "1.prems" by (subst scan.simps) simp
  next
    case False
    show ?thesis
    proof (cases "match_at (drop pos code)")
      case None
      then show ?thesis
        using 1(1)[OF False None "1.prems"] False by (subst scan.simps) simp
    next
      case (Some kn)
      obtain kind n where kn: "kn = (kind, n)" by (cases kn)
      have k: "kind \<noteq> ''EOF''"
        using match_at_kind[of "drop pos code" kind n] Some kn by auto
      let ?val = "take n (drop pos code)"
      let ?tok = "Token (if kind = ''ID'' \<and> ?val \<in> set KEYWORDS then ?val else kind) ?val
                    line_num (int pos - int line_start + 1)"
      have tk: "ttype ?tok \<noteq> ''EOF''"
        using k keyword_not_eof by auto
      consider (nl) "kind = ''NEWLINE''"
        | (skip) "kind \<noteq> ''NEWLINE''" "kind = ''SKIP'' \<or> kind = ''COMMENT'' \<or> kind = ''MULTICOMMENT''"
        | (tok) "kind \<noteq> ''NEWLINE''" "\<not> (kind = ''SKIP'' \<or> kind = ''COMMENT'' \<or> kind = ''MULTICOMMENT'')"
        by blast
      then show ?thesis
      proof cases
        case nl
        have "\<forall>t\<in>set (fst (scan code (pos + n) (line_num + 1) (pos + n) tokens)). ttype t \<noteq> ''EOF''"
          using 1(2)[OF False Some kn[symmetric] refl refl nl "1.prems"] .
        then show ?thesis
          using False Some kn nl by (subst scan.simps) (simp add: Let_def)
      next
        case skip
        have "\<forall>t\<in>set (fst (scan code (pos + n) line_num line_start tokens)). ttype t \<noteq> ''EOF''"
          using 1(3)[OF False Some kn[symmetric] refl refl skip "1.prems"] .
        then show ?thesis
          using False Some kn skip by (subst scan.simps) (simp add: Let_def)
      next
        case tok
        have p: "\<forall>t\<in>set (tokens @ [?tok]). ttype t \<noteq> ''EOF''"
          using "1.prems" tk by simp
        have "\<forall>t\<in>set (fst (scan code (pos + n) line_num line_start (tokens @ [?tok]))).
                 ttype t \<noteq> ''EOF''"
          using 1(4)[OF False Some kn[symmetric] refl refl tok p] .
        then show ?thesis
          using False Some kn tok by (subst scan.simps) (simp add: Let_def)
      qed
    qed
  qed
qed

text \<open>
  C8. \<open>tokenize\<close> is a total function with no error result: for every text it returns a
  list of tokens. The list ends with the end-of-input token, and no token before it has
  the type \<^verbatim>\<open>EOF\<close>. Where no rule matches at the current position, the scan goes on at
  the next character with the same line counter, line start and tokens: the character
  yields no token and no error, as the \<^verbatim>\<open>@\<close> of \<^verbatim>\<open>a @ b\<close> shows.
\<close>

theorem tokenize_ends_with_single_eof:
  "(\<exists>toks ln. tokenize code = toks @ [Token ''EOF'' [] ln 1]
       \<and> (\<forall>t\<in>set toks. ttype t \<noteq> ''EOF''))
   \<and> (pos < length code \<and> match_at (drop pos code) = None \<longrightarrow>
        scan code pos line_num line_start tokens = scan code (pos + 1) line_num line_start tokens)
   \<and> tokenize ''a @ b''
        = [Token ''ID'' ''a'' 1 1, Token ''ID'' ''b'' 1 5, Token ''EOF'' [] 1 1]"
proof (intro conjI impI)
  obtain toks ln where s: "scan code 0 1 0 [] = (toks, ln)" by fastforce
  have "\<forall>t\<in>set (fst (scan code 0 1 0 [])). ttype t \<noteq> ''EOF''"
    by (rule scan_no_eof) simp
  then have "\<forall>t\<in>set toks. ttype t \<noteq> ''EOF''" using s by simp
  moreover have "tokenize code = toks @ [Token ''EOF'' [] ln 1]"
    by (simp add: tokenize_def s)
  ultimately show "\<exists>toks ln. tokenize code = toks @ [Token ''EOF'' [] ln 1]
       \<and> (\<forall>t\<in>set toks. ttype t \<noteq> ''EOF'')" by blast
next
  assume "pos < length code \<and> match_at (drop pos code) = None"
  then show "scan code pos line_num line_start tokens = scan code (pos + 1) line_num line_start tokens"
    by (subst scan.simps) simp
next
  show "tokenize ''a @ b''
        = [Token ''ID'' ''a'' 1 1, Token ''ID'' ''b'' 1 5, Token ''EOF'' [] 1 1]"
    by code_simp
qed

theorem tokenize_ends_with_single_eof_witness:
  "scan ''a @ b'' 2 1 0 [Token ''ID'' ''a'' 1 1] = scan ''a @ b'' 3 1 0 [Token ''ID'' ''a'' 1 1]"
proof -
  have h: "2 < length ''a @ b'' \<and> match_at (drop 2 ''a @ b'') = None"
    by code_simp
  show ?thesis
    using tokenize_ends_with_single_eof [where code = "''a @ b''" and pos = 2 and line_num = 1
        and line_start = 0 and tokens = "[Token ''ID'' ''a'' 1 1]"] h
    by simp
qed

section \<open>Properties of the parser\<close>

text \<open>
  C1 (does not hold on the code). The claim: where the parser requires a specific symbol
  and the current token is a symbol of another value, parsing fails and no Program is
  produced. \<^verbatim>\<open>Parser.expect\<close> raises only when the token's type differs from the expected
  type and its value differs from the expected value, so any \<^verbatim>\<open>SYMBOL\<close> passes where a
  particular one is required: \<^verbatim>\<open>expect('SYMBOL', ';')\<close> consumes a \<^verbatim>\<open>)\<close>, and the text
  \<^verbatim>\<open>int x = 1 )\<close> parses to a Program; \<^verbatim>\<open>int x = (1;;\<close> does too, its \<^verbatim>\<open>;\<close> closing the
  parenthesis.
\<close>

theorem expect_accepts_any_symbol:
  "expect [Token ''SYMBOL'' '')'' 1 11] 0 ''SYMBOL'' (Some '';'')
     = Inr (Token ''SYMBOL'' '')'' 1 11, 1)
   \<and> parse 50 ''int x = 1 )''
     = Inr (Program [VarDecl ''int'' ''x'' (Some (Literal_node (IntV 1) ''int'')) False])
   \<and> parse 50 ''int x = (1;;''
     = Inr (Program [VarDecl ''int'' ''x'' (Some (Literal_node (IntV 1) ''int'')) False])"
  by code_simp

text \<open>
  C6. \<^verbatim>\<open>1 + 2 * 3\<close> parses to the tree of \<^verbatim>\<open>1 + (2 * 3)\<close>: the product is the right
  operand of the sum. \<^verbatim>\<open>a = b = 1\<close> parses to the tree of \<^verbatim>\<open>a = (b = 1)\<close>: the second
  assignment is the right operand of the first. The second component is the position
  reached, the index of the end-of-input token.
\<close>

theorem precedence_and_associativity:
  "parse_expression 20 (tokenize ''1 + 2 * 3'') 0 0
     = Inr (BinaryOp ''+'' (Literal_node (IntV 1) ''int'')
              (BinaryOp ''*'' (Literal_node (IntV 2) ''int'') (Literal_node (IntV 3) ''int'')), 5)
   \<and> parse_expression 20 (tokenize ''1 + (2 * 3)'') 0 0
     = Inr (BinaryOp ''+'' (Literal_node (IntV 1) ''int'')
              (BinaryOp ''*'' (Literal_node (IntV 2) ''int'') (Literal_node (IntV 3) ''int'')), 7)
   \<and> parse_expression 20 (tokenize ''a = b = 1'') 0 0
     = Inr (BinaryOp ''='' (VarRef ''a'')
              (BinaryOp ''='' (VarRef ''b'') (Literal_node (IntV 1) ''int'')), 5)
   \<and> parse_expression 20 (tokenize ''a = (b = 1)'') 0 0
     = Inr (BinaryOp ''='' (VarRef ''a'')
              (BinaryOp ''='' (VarRef ''b'') (Literal_node (IntV 1) ''int'')), 7)"
  by code_simp

theorem precedence_and_associativity_witness:
  "map_sum id fst (parse_expression 20 (tokenize ''1 + 2 * 3'') 0 0)
     = map_sum id fst (parse_expression 20 (tokenize ''1 + (2 * 3)'') 0 0)
   \<and> map_sum id fst (parse_expression 20 (tokenize ''a = b = 1'') 0 0)
     = map_sum id fst (parse_expression 20 (tokenize ''a = (b = 1)'') 0 0)"
  by (simp add: precedence_and_associativity)

section \<open>Properties of the semantic analyzer\<close>

text \<open>The diagnostics that \<open>infer_type\<close> and \<open>visit\<close> append do not depend on those
  already in the list, and the list passed in is kept as a prefix.\<close>

lemma infer_append_aux:
  "\<forall>e0. infer_type gs fs f scope nd (e0 @ errs)
     = (fst (infer_type gs fs f scope nd errs), e0 @ snd (infer_type gs fs f scope nd errs))"
  "\<forall>e0. infer_args gs fs f scope n ps i as (e0 @ errs)
     = e0 @ infer_args gs fs f scope n ps i as errs"
proof (induction gs fs f scope nd errs and gs fs f scope n ps i as errs
       rule: infer_type_infer_args.induct)
  case (4 gs fs f scope n args errs)
  show ?case
  proof (cases "map_of fs n")
    case None
    then show ?thesis by simp
  next
    case (Some callee)
    show ?thesis
    proof (cases "length args \<noteq> length (params callee)")
      case True
      then show ?thesis
        using 4[OF Some refl] Some by (simp del: append_assoc add: append_assoc[symmetric])
    next
      case False
      then show ?thesis
        using 4[OF Some refl] Some by simp
    qed
  qed
next
  case (5 gs fs f scope op l r errs)
  show ?case
  proof
    fix e0
    obtain lt e1 where l: "infer_type gs fs f scope l errs = (lt, e1)" by fastforce
    obtain rt e2 where r: "infer_type gs fs f scope r e1 = (rt, e2)" by fastforce
    have l': "infer_type gs fs f scope l (e0 @ errs) = (lt, e0 @ e1)"
      using 5(1) l by simp
    have r': "infer_type gs fs f scope r (e0 @ e1) = (rt, e0 @ e2)"
      using 5(2)[OF refl l[symmetric]] r by simp
    show "infer_type gs fs f scope (BinaryOp op l r) (e0 @ errs)
       = (fst (infer_type gs fs f scope (BinaryOp op l r) errs),
          e0 @ snd (infer_type gs fs f scope (BinaryOp op l r) errs))"
      by (simp add: l r l' r' split: node.splits option.splits)
  qed
next
  case (8 gs fs f scope n ps i a as errs)
  define g where "g = (\<lambda>(xa :: string option) (y :: string list).
           (if i < length ps
            then let expected = fst (ps ! i)
                 in case xa of None \<Rightarrow> y
                    | Some t \<Rightarrow>
                        if t \<noteq> [] \<and> expected \<noteq> [] \<and> t \<noteq> expected \<and>
                           \<not> (t = ''int'' \<and> expected = ''float'')
                        then y @ [''Type mismatch for argument '' @ str_nat (i + 1) @
                              '' in call to '' @ n @ '': expected '' @ expected @ '', got '' @ t]
                        else y
            else y))"
  have unfold: "infer_args gs fs f scope n ps i (a # as) e
        = (case infer_type gs fs f scope a e of
             (at, e1) \<Rightarrow> infer_args gs fs f scope n ps (i + 1) as (g at e1))" for e
    by (simp add: g_def Let_def split: prod.splits)
  have g_app: "g at (e0 @ e1) = e0 @ g at e1" for at e0 e1
    by (simp add: g_def Let_def split: option.splits)
  show ?case
  proof
    fix e0
    obtain at e1 where a: "infer_type gs fs f scope a errs = (at, e1)" by fastforce
    have a': "infer_type gs fs f scope a (e0 @ errs) = (at, e0 @ e1)"
      using 8(1)[rule_format, of e0] a by simp
    have IH: "infer_args gs fs f scope n ps (i + 1) as (e0 @ g at e1)
                = e0 @ infer_args gs fs f scope n ps (i + 1) as (g at e1)"
      unfolding g_def by (rule 8(2)[OF refl a[symmetric] refl, rule_format])
    show "infer_args gs fs f scope n ps i (a # as) (e0 @ errs)
            = e0 @ infer_args gs fs f scope n ps i (a # as) errs"
      by (simp only: unfold a a' prod.case g_app IH)
  qed
next
  case (2 gs fs f scope op e errs)
  show ?case
  proof (cases "op = [] \<or> op = ''!'' \<or> op = ''pre!'' \<or> op = ''post!''")
    case True
    then show ?thesis by auto
  next
    case False
    show ?thesis
    proof
      fix e0
      show "infer_type gs fs f scope (UnaryOp op e) (e0 @ errs) =
          (fst (infer_type gs fs f scope (UnaryOp op e) errs),
           e0 @ snd (infer_type gs fs f scope (UnaryOp op e) errs))"
        using 2[OF False, rule_format, of e0] False by simp
    qed
  qed
next
  case (3 gs fs f scope n errs)
  show ?case by (simp split: option.splits)
qed simp_all

lemma prepend_pair: "prepend e0 (sc, es) = (sc, e0 @ es)"
  by (simp add: prepend_def)

lemma infer_append:
  "infer_type gs fs f scope nd (e0 @ errs)
     = (fst (infer_type gs fs f scope nd errs), e0 @ snd (infer_type gs fs f scope nd errs))"
  using infer_append_aux(1) by blast

lemma infer_type_fst:
  "fst (infer_type gs fs f scope nd es) = fst (infer_type gs fs f scope nd [])"
  using infer_append[of gs fs f scope nd es "[]"] by simp

lemma visit_append_aux:
  "\<forall>e0. visit gs fs f nd (prepend e0 st) = prepend e0 (visit gs fs f nd st)"
  "\<forall>e0. visit_list gs fs f nds (prepend e0 st) = prepend e0 (visit_list gs fs f nds st)"
proof (induction gs fs f nd st and gs fs f nds st rule: visit_visit_list.induct)
  case (1 gs fs f ss st)
  then show ?case by simp
next
  case (2 gs fs f vt n init c scope errs)
  define errs1 where "errs1 =
     (if scope n \<noteq> None then errs @ [''Redeclaration of '' @ n @ '' in function '' @ fname f]
      else errs)"
  define h where "h = (\<lambda>(xc :: string option) (y :: string list).
         (case xc of None \<Rightarrow> y
          | Some t \<Rightarrow>
              if t \<noteq> [] \<and> t \<noteq> vt \<and> \<not> (t = ''int'' \<and> vt = ''float'')
              then y @ [''Type mismatch in initializer for '' @ n @ '': '' @ t @ '' -> '' @ vt
                        @ '' in function '' @ fname f]
              else y))"
  have h_app: "h xc (e0 @ y) = e0 @ h xc y" for xc e0 y
    by (simp add: h_def split: option.splits)
  have unfold: "visit gs fs f (VarDecl vt n init c) (scope, e @ errs)
      = (case init of
           None \<Rightarrow> (scope(n \<mapsto> (vt, c)), e @ errs1)
         | Some x \<Rightarrow>
            if truthy x
            then (case infer_type gs fs f (scope(n \<mapsto> (vt, c))) x (e @ errs1) of
                    (it, e2) \<Rightarrow> visit gs fs f x (scope(n \<mapsto> (vt, c)), h it e2))
            else (scope(n \<mapsto> (vt, c)), e @ errs1))" for e
    by (simp add: errs1_def h_def Let_def split: option.splits prod.splits)
  show ?case
  proof
    fix e0
    show "visit gs fs f (VarDecl vt n init c) (prepend e0 (scope, errs))
            = prepend e0 (visit gs fs f (VarDecl vt n init c) (scope, errs))"
    proof (cases init)
      case None
      then show ?thesis
        using unfold[of e0] unfold[of "[]"] by (simp add: prepend_pair del: visit.simps)
    next
      case (Some x)
      show ?thesis
      proof (cases "truthy x")
        case False
        then show ?thesis
          using Some unfold[of e0] unfold[of "[]"] by (simp add: prepend_pair del: visit.simps)
      next
        case True
        obtain it e2 where i: "infer_type gs fs f (scope(n \<mapsto> (vt, c))) x errs1 = (it, e2)"
          by fastforce
        have i': "infer_type gs fs f (scope(n \<mapsto> (vt, c))) x (e0 @ errs1) = (it, e0 @ e2)"
          by (simp add: infer_append[of _ _ _ _ _ e0 errs1] i)
        have IH: "visit gs fs f x (prepend e0 (scope(n \<mapsto> (vt, c)), h it e2))
                = prepend e0 (visit gs fs f x (scope(n \<mapsto> (vt, c)), h it e2))"
          unfolding h_def
          by (rule 2[OF refl refl Some True refl i[unfolded errs1_def, symmetric] refl, rule_format])
        have l: "visit gs fs f (VarDecl vt n init c) (scope, e0 @ errs)
                   = visit gs fs f x (scope(n \<mapsto> (vt, c)), e0 @ h it e2)"
          using unfold[of e0] Some True i' by (simp add: h_app del: visit.simps)
        have r: "visit gs fs f (VarDecl vt n init c) (scope, errs)
                   = visit gs fs f x (scope(n \<mapsto> (vt, c)), h it e2)"
          using unfold[of "[]"] Some True i by (simp del: visit.simps)
        show ?thesis
          using IH by (simp only: prepend_pair l r)
      qed
    qed
  qed
next
  case (3 gs fs f c t e st)
  show ?case
  proof
    fix e0
    have c: "visit gs fs f c (prepend e0 st) = prepend e0 (visit gs fs f c st)"
      using 3(1) by blast
    have t: "visit gs fs f t (prepend e0 (visit gs fs f c st))
              = prepend e0 (visit gs fs f t (visit gs fs f c st))"
      using 3(2)[OF refl] by blast
    show "visit gs fs f (If_node c t e) (prepend e0 st)
            = prepend e0 (visit gs fs f (If_node c t e) st)"
    proof (cases e)
      case None
      then show ?thesis by (simp add: c t)
    next
      case (Some eb)
      show ?thesis
      proof (cases "truthy eb")
        case True
        have "visit gs fs f eb (prepend e0 (visit gs fs f t (visit gs fs f c st)))
              = prepend e0 (visit gs fs f eb (visit gs fs f t (visit gs fs f c st)))"
          using 3(3)[OF refl refl Some True] by blast
        then show ?thesis using Some True by (simp add: c t)
      next
        case False
        then show ?thesis using Some by (simp add: c t)
      qed
    qed
  qed
next
  case (4 gs fs f c b st)
  show ?case
  proof
    fix e0
    have c: "visit gs fs f c (prepend e0 st) = prepend e0 (visit gs fs f c st)"
      using 4(1) by blast
    have b: "visit gs fs f b (prepend e0 (visit gs fs f c st))
              = prepend e0 (visit gs fs f b (visit gs fs f c st))"
      using 4(2) by blast
    show "visit gs fs f (While c b) (prepend e0 st) = prepend e0 (visit gs fs f (While c b) st)"
      by (simp add: c b)
  qed
next
  case (5 gs fs f eo scope errs)
  define h where "h = (\<lambda>(xa :: string option) (y :: string list).
         (if ret_type f \<noteq> ''void''
          then case xa of None \<Rightarrow> y
               | Some t \<Rightarrow>
                   if t \<noteq> [] \<and> t \<noteq> ret_type f \<and> \<not> (t = ''int'' \<and> ret_type f = ''float'')
                   then y @ [''Return type mismatch in function '' @ fname f @ '': expected ''
                             @ ret_type f @ '', got '' @ t]
                   else y
          else y))"
  have h_app: "h xc (e0 @ y) = e0 @ h xc y" for xc e0 y
    by (simp add: h_def split: option.splits)
  have unfold: "visit gs fs f (Return eo) (scope, e)
      = (case eo of
           None \<Rightarrow> (scope, e)
         | Some x \<Rightarrow>
            if truthy x
            then (case infer_type gs fs f scope x e of
                    (rt, e2) \<Rightarrow> visit gs fs f x (scope, h rt e2))
            else (scope, e))" for e
    by (simp add: h_def Let_def split: option.splits prod.splits)
  show ?case
  proof
    fix e0
    show "visit gs fs f (Return eo) (prepend e0 (scope, errs))
            = prepend e0 (visit gs fs f (Return eo) (scope, errs))"
    proof (cases eo)
      case None
      then show ?thesis by (simp add: prepend_pair)
    next
      case (Some x)
      show ?thesis
      proof (cases "truthy x")
        case False
        then show ?thesis using Some by (simp add: prepend_pair)
      next
        case True
        obtain rt e2 where i: "infer_type gs fs f scope x errs = (rt, e2)"
          by fastforce
        have i': "infer_type gs fs f scope x (e0 @ errs) = (rt, e0 @ e2)"
          by (simp add: infer_append[of _ _ _ _ _ e0 errs] i)
        have IH: "visit gs fs f x (prepend e0 (scope, h rt e2))
                = prepend e0 (visit gs fs f x (scope, h rt e2))"
          unfolding h_def
          by (rule 5[OF Some True refl i[symmetric] refl, rule_format])
        have l: "visit gs fs f (Return eo) (scope, e0 @ errs)
                   = visit gs fs f x (scope, e0 @ h rt e2)"
          using unfold[of "e0 @ errs"] Some True i' by (simp add: h_app del: visit.simps)
        have r: "visit gs fs f (Return eo) (scope, errs) = visit gs fs f x (scope, h rt e2)"
          using unfold[of errs] Some True i by (simp del: visit.simps)
        show ?thesis
          using IH by (simp only: prepend_pair l r)
      qed
    qed
  qed
next
  case (6 gs fs f e st)
  then show ?case by simp
next
  case (7 gs fs f op l r scope errs)
  define k where "k = (\<lambda>errs :: string list.
         (if op \<in> set assign_ops
          then case l of
               VarRef lname \<Rightarrow>
                 let errs1 =
                       if case scope lname of None \<Rightarrow> False | Some (t, c) \<Rightarrow> c
                       then errs @ [''Assignment to const variable '' @ lname
                                    @ '' in function '' @ fname f]
                       else errs
                 in if case gs lname of None \<Rightarrow> False | Some (t, c) \<Rightarrow> c
                    then errs1 @ [''Assignment to const global '' @ lname
                                  @ '' in function '' @ fname f]
                    else errs1
               | _ \<Rightarrow> errs
          else errs))"
  have k_app: "k (e0 @ y) = e0 @ k y" for e0 y
    by (simp add: k_def Let_def split: node.splits)
  have unfold: "visit gs fs f (BinaryOp op l r) (scope, e)
                  = visit gs fs f r (visit gs fs f l (scope, k e))" for e
    by (simp add: k_def Let_def)
  show ?case
  proof
    fix e0
    have l: "visit gs fs f l (prepend e0 (scope, k errs)) = prepend e0 (visit gs fs f l (scope, k errs))"
      unfolding k_def by (rule 7(1)[OF refl, rule_format])
    have r: "visit gs fs f r (prepend e0 (visit gs fs f l (scope, k errs)))
               = prepend e0 (visit gs fs f r (visit gs fs f l (scope, k errs)))"
      unfolding k_def by (rule 7(2)[OF refl, rule_format])
    show "visit gs fs f (BinaryOp op l r) (prepend e0 (scope, errs))
            = prepend e0 (visit gs fs f (BinaryOp op l r) (scope, errs))"
      using l r by (simp only: prepend_pair unfold k_app)
  qed
next
  case (8 gs fs f op e st)
  then show ?case by simp
next
  case (9 gs fs f n scope errs)
  show ?case by (simp add: prepend_pair)
next
  case (10 gs fs f n args scope errs)
  show ?case
  proof
    fix e0
    define e1 where "e1 = (if map_of fs n = None
      then errs @ [''Call to undeclared function '' @ n @ '' in function '' @ fname f]
      else errs)"
    have IH: "visit_list gs fs f args (prepend e0 (scope, e1))
                = prepend e0 (visit_list gs fs f args (scope, e1))"
      unfolding e1_def by (rule 10[rule_format])
    have l: "visit gs fs f (FuncCall n args) (scope, e0 @ errs)
               = visit_list gs fs f args (scope, e0 @ e1)"
      by (simp add: e1_def)
    have r: "visit gs fs f (FuncCall n args) (scope, errs) = visit_list gs fs f args (scope, e1)"
      by (simp add: e1_def)
    show "visit gs fs f (FuncCall n args) (prepend e0 (scope, errs))
            = prepend e0 (visit gs fs f (FuncCall n args) (scope, errs))"
      using IH by (simp only: prepend_pair l r)
  qed
next
  case (13 gs fs f s ss st)
  show ?case
  proof
    fix e0
    have s: "visit gs fs f s (prepend e0 st) = prepend e0 (visit gs fs f s st)"
      using 13(1) by blast
    have ss: "visit_list gs fs f ss (prepend e0 (visit gs fs f s st))
               = prepend e0 (visit_list gs fs f ss (visit gs fs f s st))"
      using 13(2) by blast
    show "visit_list gs fs f (s # ss) (prepend e0 st) = prepend e0 (visit_list gs fs f (s # ss) st)"
      by (simp add: s ss)
  qed
qed simp_all

lemma visit_append:
  "visit gs fs f nd (sc, e0 @ es) = prepend e0 (visit gs fs f nd (sc, es))"
  using visit_append_aux(1)[of gs fs f nd "(sc, es)"] by (simp add: prepend_pair del: visit.simps)

lemma check_function_eq:
  "check_function a f
     = a\<lparr>errors := errors a @ function_diags (global_scope a) (functions a) f\<rparr>"
  using visit_append[of "global_scope a" "functions a" f "body f" "param_scope (params f)" "errors a" "[]"]
  by (simp add: check_function_def function_diags_def prepend_def)

lemma check_all_eq:
  "check_all fl a
     = a\<lparr>errors := errors a
          @ concat (map (\<lambda>(n, fd). function_diags (global_scope a) (functions a) fd) fl)\<rparr>"
proof (induction fl arbitrary: a)
  case Nil
  then show ?case by simp
next
  case (Cons p fl)
  obtain n fd where p: "p = (n, fd)" by (cases p)
  show ?case
    by (simp add: p Cons.IH check_function_eq)
qed

lemma collect_append: "collect (xs @ ys) a = collect ys (collect xs a)"
  by (induction xs arbitrary: a) simp_all

lemma var_names_append: "var_names (xs @ ys) = var_names xs @ var_names ys"
  by (induction xs rule: var_names.induct) simp_all

lemma fun_names_append: "fun_names (xs @ ys) = fun_names xs @ fun_names ys"
  by (induction xs rule: fun_names.induct) simp_all

lemma collect_program: "program (collect ds a) = program a"
  by (induction ds arbitrary: a) (simp_all split: node.splits)

lemma collect_global_dom:
  "dom (global_scope (collect ds a)) = dom (global_scope a) \<union> set (var_names ds)"
proof (induction ds arbitrary: a)
  case Nil
  then show ?case by simp
next
  case (Cons d ds)
  show ?case by (cases d) (auto simp: Cons.IH)
qed

lemma collect_functions_dom:
  "fst ` set (functions (collect ds a)) = fst ` set (functions a) \<union> set (fun_names ds)"
proof (induction ds arbitrary: a)
  case Nil
  then show ?case by simp
next
  case (Cons d ds)
  show ?case by (cases d) (auto simp: Cons.IH map_of_eq_None_iff)
qed

lemma collect_global_keeps:
  "global_scope a n = Some v \<Longrightarrow> global_scope (collect ds a) n = Some v"
proof (induction ds arbitrary: a)
  case Nil
  then show ?case by simp
next
  case (Cons d ds)
  show ?case
  proof (cases d)
    case (VarDecl vt m init c)
    show ?thesis
    proof (cases "global_scope a m = None")
      case True
      then have "m \<noteq> n" using Cons.prems by auto
      then have "global_scope (a\<lparr>global_scope := (global_scope a)(m \<mapsto> (vt, c))\<rparr>) n = Some v"
        using Cons.prems by simp
      from Cons.IH[OF this] show ?thesis using VarDecl True by simp
    next
      case False
      have "global_scope (a\<lparr>errors := errors a @ [''Redeclaration of global '' @ m]\<rparr>) n = Some v"
        using Cons.prems by simp
      from Cons.IH[OF this] show ?thesis using VarDecl False by simp
    qed
  next
    case (FuncDecl rt m ps b)
    show ?thesis
    proof (cases "map_of (functions a) m = None")
      case True
      have "global_scope (a\<lparr>functions := functions a @ [(m, d)]\<rparr>) n = Some v"
        using Cons.prems by simp
      from Cons.IH[OF this] show ?thesis using FuncDecl True by simp
    next
      case False
      have "global_scope (a\<lparr>errors := errors a @ [''Redeclaration of function '' @ m]\<rparr>) n = Some v"
        using Cons.prems by simp
      from Cons.IH[OF this] show ?thesis using FuncDecl False by simp
    qed
  qed (use Cons in simp_all)
qed

lemma collect_functions_keeps:
  "map_of (functions a) n = Some v \<Longrightarrow> map_of (functions (collect ds a)) n = Some v"
proof (induction ds arbitrary: a)
  case Nil
  then show ?case by simp
next
  case (Cons d ds)
  show ?case
  proof (cases d)
    case (VarDecl vt m init c)
    show ?thesis
    proof (cases "global_scope a m = None")
      case True
      have "map_of (functions (a\<lparr>global_scope := (global_scope a)(m \<mapsto> (vt, c))\<rparr>)) n = Some v"
        using Cons.prems by simp
      from Cons.IH[OF this] show ?thesis using VarDecl True by simp
    next
      case False
      have "map_of (functions (a\<lparr>errors := errors a @ [''Redeclaration of global '' @ m]\<rparr>)) n = Some v"
        using Cons.prems by simp
      from Cons.IH[OF this] show ?thesis using VarDecl False by simp
    qed
  next
    case (FuncDecl rt m ps b)
    show ?thesis
    proof (cases "map_of (functions a) m = None")
      case True
      have "map_of (functions (a\<lparr>functions := functions a @ [(m, d)]\<rparr>)) n = Some v"
        using Cons.prems by (simp add: map_of_append)
      from Cons.IH[OF this] show ?thesis using FuncDecl True by simp
    next
      case False
      have "map_of (functions (a\<lparr>errors := errors a @ [''Redeclaration of function '' @ m]\<rparr>)) n = Some v"
        using Cons.prems by simp
      from Cons.IH[OF this] show ?thesis using FuncDecl False by simp
    qed
  qed (use Cons in simp_all)
qed

lemma collect_fresh:
  "distinct (var_names ds) \<Longrightarrow> set (var_names ds) \<inter> dom (global_scope a) = {}
   \<Longrightarrow> distinct (fun_names ds) \<Longrightarrow> set (fun_names ds) \<inter> fst ` set (functions a) = {}
   \<Longrightarrow> errors (collect ds a) = errors a"
proof (induction ds arbitrary: a)
  case Nil
  then show ?case by simp
next
  case (Cons d ds)
  show ?case
  proof (cases d)
    case (VarDecl vt n init c)
    have "global_scope a n = None" using Cons.prems VarDecl by auto
    moreover have "errors (collect ds (a\<lparr>global_scope := (global_scope a)(n \<mapsto> (vt, c))\<rparr>)) = errors a"
      using Cons.prems VarDecl by (subst Cons.IH) auto
    ultimately show ?thesis using VarDecl by simp
  next
    case (FuncDecl rt n ps b)
    have "map_of (functions a) n = None" using Cons.prems FuncDecl
      by (auto simp: map_of_eq_None_iff)
    moreover have "errors (collect ds (a\<lparr>functions := functions a @ [(n, d)]\<rparr>)) = errors a"
      using Cons.prems FuncDecl by (subst Cons.IH) auto
    ultimately show ?thesis using FuncDecl by simp
  qed (use Cons in simp_all)
qed

lemma collect_populated:
  "set (var_names ds) \<subseteq> dom (global_scope a) \<Longrightarrow> set (fun_names ds) \<subseteq> fst ` set (functions a)
   \<Longrightarrow> collect ds a = a\<lparr>errors := errors a @ concat (map redeclaration ds)\<rparr>"
proof (induction ds arbitrary: a)
  case Nil
  then show ?case by simp
next
  case (Cons d ds)
  show ?case
  proof (cases d)
    case (VarDecl vt n init c)
    then show ?thesis using Cons.prems by (auto simp: Cons.IH)
  next
    case (FuncDecl rt n ps b)
    have "map_of (functions a) n \<noteq> None" using Cons.prems FuncDecl
      by (auto simp: map_of_eq_None_iff)
    then show ?thesis using Cons.prems FuncDecl by (auto simp: Cons.IH)
  qed (use Cons in \<open>simp_all add: Cons.IH\<close>)
qed

lemma visit_expr_scope_aux:
  "is_expr nd \<longrightarrow> fst (visit gs fs f nd st) = fst st"
  "list_all is_expr nds \<longrightarrow> fst (visit_list gs fs f nds st) = fst st"
proof (induction gs fs f nd st and gs fs f nds st rule: visit_visit_list.induct)
  case (7 gs fs f op l r scope errs)
  show ?case
  proof
    assume e: "is_expr (BinaryOp op l r)"
    obtain x where x: "x =
         (if op \<in> set assign_ops
          then case l of
               VarRef lname \<Rightarrow>
                 let errs1 =
                       if case scope lname of None \<Rightarrow> False | Some (t, c) \<Rightarrow> c
                       then errs @ [''Assignment to const variable '' @ lname
                                    @ '' in function '' @ fname f]
                       else errs
                 in if case gs lname of None \<Rightarrow> False | Some (t, c) \<Rightarrow> c
                    then errs1 @ [''Assignment to const global '' @ lname
                                  @ '' in function '' @ fname f]
                    else errs1
               | _ \<Rightarrow> errs
          else errs)" by blast
    have l: "fst (visit gs fs f l (scope, x)) = scope"
      using 7(1)[OF x] e by simp
    have r: "fst (visit gs fs f r (visit gs fs f l (scope, x))) = fst (visit gs fs f l (scope, x))"
      using 7(2)[OF x] e by simp
    have "visit gs fs f (BinaryOp op l r) (scope, errs) = visit gs fs f r (visit gs fs f l (scope, x))"
      by (simp add: x Let_def)
    then show "fst (visit gs fs f (BinaryOp op l r) (scope, errs)) = fst (scope, errs)"
      using l r by simp
  qed
qed simp_all

lemma visit_expr_scope: "is_expr nd \<Longrightarrow> fst (visit gs fs f nd (sc, es)) = sc"
  using visit_expr_scope_aux(1)[of nd gs fs f "(sc, es)"] by simp

lemma visit_errors_append: "\<exists>ds. snd (visit gs fs f nd (sc, es)) = es @ ds"
  using visit_append[of gs fs f nd sc es "[]"] by (simp add: prepend_def del: visit.simps)

lemma collect_errors_append: "\<exists>ds. errors (collect xs a) = errors a @ ds"
proof (induction xs arbitrary: a)
  case Nil
  then show ?case by simp
next
  case (Cons d xs)
  show ?case
  proof (cases d)
    case (VarDecl vt n init c)
    show ?thesis
    proof (cases "global_scope a n = None")
      case True
      then show ?thesis
        using Cons.IH[of "a\<lparr>global_scope := (global_scope a)(n \<mapsto> (vt, c))\<rparr>"] VarDecl by simp
    next
      case False
      then show ?thesis
        using Cons.IH[of "a\<lparr>errors := errors a @ [''Redeclaration of global '' @ n]\<rparr>"] VarDecl
        by auto
    qed
  next
    case (FuncDecl rt n ps b)
    show ?thesis
    proof (cases "map_of (functions a) n = None")
      case True
      then show ?thesis
        using Cons.IH[of "a\<lparr>functions := functions a @ [(n, d)]\<rparr>"] FuncDecl by simp
    next
      case False
      then show ?thesis
        using Cons.IH[of "a\<lparr>errors := errors a @ [''Redeclaration of function '' @ n]\<rparr>"] FuncDecl
        by auto
    qed
  qed (use Cons.IH[of a] in simp_all)
qed

lemma analyze_eq:
  "analyze a = (collect (declarations (program a)) a)
      \<lparr>errors := errors (collect (declarations (program a)) a)
                 @ pass2_diags (collect (declarations (program a)) a)\<rparr>"
  by (simp add: analyze_def Let_def check_all_eq pass2_diags_def)

lemma pass2_diags_errors [simp]: "pass2_diags (a\<lparr>errors := es\<rparr>) = pass2_diags a"
  by (simp add: pass2_diags_def)

lemma analyze_tables:
  "global_scope (analyze a) = global_scope (collect (declarations (program a)) a)"
  "functions (analyze a) = functions (collect (declarations (program a)) a)"
  by (simp_all add: analyze_eq)

lemma collect_split_duplicate:
  assumes dv: "distinct (var_names (pre @ [d1] @ mid @ post))"
    and df: "distinct (fun_names (pre @ [d1] @ mid @ post))"
    and a0: "errors a0 = []" "global_scope a0 = Map.empty" "functions a0 = []"
    and step1: "\<And>a. set (var_names [d1]) \<inter> dom (global_scope a) = {} \<Longrightarrow>
                    set (fun_names [d1]) \<inter> fst ` set (functions a) = {} \<Longrightarrow>
                    Q (collect [d1] a)"
    and keepQ: "\<And>a ds. Q a \<Longrightarrow> Q (collect ds a)"
    and step2: "\<And>a. Q a \<Longrightarrow> collect [d2] a = a\<lparr>errors := errors a @ [m]\<rparr>"
  shows "errors (collect (pre @ [d1] @ mid @ [d2] @ post) a0) = [m]
         \<and> Q (collect (pre @ [d1] @ mid @ [d2] @ post) a0)"
proof -
  define a1 where "a1 = collect pre a0"
  define a2 where "a2 = collect [d1] a1"
  define a3 where "a3 = collect mid a2"
  define a4 where "a4 = collect [d2] a3"
  define a5 where "a5 = collect post a4"
  have all: "collect (pre @ [d1] @ mid @ [d2] @ post) a0 = a5"
    by (simp only: collect_append a1_def a2_def a3_def a4_def a5_def)
  have dv': "distinct (var_names pre)" "distinct (var_names [d1])" "distinct (var_names mid)"
    "distinct (var_names post)"
    "set (var_names pre) \<inter> set (var_names [d1]) = {}" "set (var_names pre) \<inter> set (var_names mid) = {}"
    "set (var_names pre) \<inter> set (var_names post) = {}" "set (var_names [d1]) \<inter> set (var_names mid) = {}"
    "set (var_names [d1]) \<inter> set (var_names post) = {}" "set (var_names mid) \<inter> set (var_names post) = {}"
    using dv unfolding var_names_append by auto
  have df': "distinct (fun_names pre)" "distinct (fun_names [d1])" "distinct (fun_names mid)"
    "distinct (fun_names post)"
    "set (fun_names pre) \<inter> set (fun_names [d1]) = {}" "set (fun_names pre) \<inter> set (fun_names mid) = {}"
    "set (fun_names pre) \<inter> set (fun_names post) = {}" "set (fun_names [d1]) \<inter> set (fun_names mid) = {}"
    "set (fun_names [d1]) \<inter> set (fun_names post) = {}" "set (fun_names mid) \<inter> set (fun_names post) = {}"
    using df unfolding fun_names_append by auto
  have d1: "dom (global_scope a1) = set (var_names pre)"
    "fst ` set (functions a1) = set (fun_names pre)"
    by (simp_all add: a1_def collect_global_dom collect_functions_dom a0)
  have e1: "errors a1 = []"
    unfolding a1_def using collect_fresh[of pre a0] dv' df' a0 by simp
  have d2: "dom (global_scope a2) = set (var_names pre) \<union> set (var_names [d1])"
    "fst ` set (functions a2) = set (fun_names pre) \<union> set (fun_names [d1])"
    unfolding a2_def collect_global_dom collect_functions_dom d1 by (rule refl)+
  have e2: "errors a2 = []"
  proof -
    have "errors (collect [d1] a1) = errors a1"
      by (rule collect_fresh) (use dv' df' d1 in \<open>auto simp only: Int_commute\<close>)
    then show ?thesis by (simp only: a2_def e1)
  qed
  have q2: "Q a2"
    unfolding a2_def using dv' df' d1 by (intro step1) (simp_all add: Int_commute)
  have d3: "dom (global_scope a3) = set (var_names pre) \<union> set (var_names [d1]) \<union> set (var_names mid)"
    "fst ` set (functions a3) = set (fun_names pre) \<union> set (fun_names [d1]) \<union> set (fun_names mid)"
    by (simp_all add: a3_def collect_global_dom collect_functions_dom d2)
  have e3: "errors a3 = []"
    unfolding a3_def using collect_fresh[of mid a2] dv' df' d2 e2
    by (simp add: Int_commute Int_Un_distrib)
  have q3: "Q a3" unfolding a3_def by (rule keepQ[OF q2])
  have a4: "a4 = a3\<lparr>errors := [m]\<rparr>"
    unfolding a4_def by (simp only: step2[OF q3] e3 append_Nil)
  have q4: "Q a4" unfolding a4_def by (rule keepQ[OF q3])
  have e5: "errors a5 = [m]"
    unfolding a5_def using collect_fresh[of post a4] dv' df' d3 a4
    by (simp add: Int_commute Int_Un_distrib)
  have q5: "Q a5" unfolding a5_def by (rule keepQ[OF q4])
  show ?thesis using all e5 q5 by simp
qed

lemma is_expr_truthy: "is_expr e \<Longrightarrow> truthy e"
  by (cases e) simp_all

text \<open>
  C2 (does not hold on the code). The claim: for
  \<^verbatim>\<open>int add(int a, int b) { return a + b; } void g() { add(1); }\<close> the analysis reports a
  wrong-argument-count diagnostic, also when the call is a bare expression statement.
  The count is compared in \<^verbatim>\<open>infer_type\<close> only; \<^verbatim>\<open>visit\<close> of an expression statement
  never calls \<^verbatim>\<open>infer_type\<close>, and its own \<^verbatim>\<open>FuncCall\<close> branch tests only that the callee
  exists. The program of the claim yields no diagnostic; the same call as an initializer
  is flagged.
\<close>

theorem bare_call_arity_unchecked:
  "run 50 ''int add(int a, int b) { return a + b; } void g() { add(1); }'' = Inr []
   \<and> run 50 ''int add(int a, int b) { return a + b; } void g() { int r = add(1); }''
       = Inr [''Wrong number of arguments in call to add in function g'']"
  by code_simp

text \<open>
  C4. For \<^verbatim>\<open>const int x = 5; void f() { x = 6; }\<close> the analysis yields exactly one
  diagnostic, the assignment to the const global \<^verbatim>\<open>x\<close> in \<^verbatim>\<open>f\<close>.
\<close>

theorem const_assignment_reported:
  "run 50 ''const int x = 5; void f() { x = 6; }''
     = Inr [''Assignment to const global x in function f'']"
  by code_simp

theorem const_assignment_reported_witness:
  "map_sum id length (run 50 ''const int x = 5; void f() { x = 6; }'') = Inr 1"
  by (simp add: const_assignment_reported)

text \<open>
  C5. A return of an int from a float function is accepted, a return of a float from an
  int function is flagged: \<^verbatim>\<open>float f() { return 1; }\<close> yields no diagnostic,
  \<^verbatim>\<open>int g() { return 1.5; }\<close> yields the return-type mismatch. In general, returning a
  literal of type \<open>t\<close> from a function of return type \<open>ret_type fd\<close> is flagged exactly
  when the function is not void, \<open>t\<close> is not empty and differs from the return type, and
  the pair is not int to float.
\<close>

theorem return_widening:
  "run 50 ''float f() { return 1; }'' = Inr []
   \<and> run 50 ''int g() { return 1.5; }''
       = Inr [''Return type mismatch in function g: expected int, got float'']
   \<and> visit gs fs fd (Return (Some (Literal_node v t))) (scope, errs)
       = (scope,
          if ret_type fd \<noteq> ''void'' \<and> t \<noteq> [] \<and> t \<noteq> ret_type fd
             \<and> \<not> (t = ''int'' \<and> ret_type fd = ''float'')
          then errs @ [''Return type mismatch in function '' @ fname fd @ '': expected ''
                       @ ret_type fd @ '', got '' @ t]
          else errs)"
proof (intro conjI)
  show "run 50 ''float f() { return 1; }'' = Inr []"
    by code_simp
  show "run 50 ''int g() { return 1.5; }''
          = Inr [''Return type mismatch in function g: expected int, got float'']"
    by code_simp
  show "visit gs fs fd (Return (Some (Literal_node v t))) (scope, errs)
       = (scope,
          if ret_type fd \<noteq> ''void'' \<and> t \<noteq> [] \<and> t \<noteq> ret_type fd
             \<and> \<not> (t = ''int'' \<and> ret_type fd = ''float'')
          then errs @ [''Return type mismatch in function '' @ fname fd @ '': expected ''
                       @ ret_type fd @ '', got '' @ t]
          else errs)"
    by simp
qed

theorem return_widening_witness:
  "snd (visit Map.empty [] (FuncDecl ''float'' ''f'' [] (Compound []))
          (Return (Some (Literal_node (IntV 1) ''int''))) (Map.empty, [])) = []
   \<and> snd (visit Map.empty [] (FuncDecl ''int'' ''g'' [] (Compound []))
          (Return (Some (Literal_node (FloatV ''1.5'') ''float''))) (Map.empty, []))
       = [''Return type mismatch in function g: expected int, got float'']"
  using return_widening [where gs = Map.empty and fs = "[]"
          and fd = "FuncDecl ''float'' ''f'' [] (Compound [])" and v = "IntV 1"
          and t = "''int''" and scope = Map.empty and errs = "[]"]
        return_widening [where gs = Map.empty and fs = "[]"
          and fd = "FuncDecl ''int'' ''g'' [] (Compound [])" and v = "FloatV ''1.5''"
          and t = "''float''" and scope = Map.empty and errs = "[]"]
  by (simp del: visit.simps)

text \<open>
  C3 (the claim as stated fails). The claim: for \<^verbatim>\<open>void f() { int x = y + 1; }\<close> with
  \<^verbatim>\<open>y\<close> undeclared the analysis yields exactly one undeclared-identifier diagnostic, and
  the inferred type of \<^verbatim>\<open>y + 1\<close> is absent. On the code the list of diagnostics is not
  that one-element list, and the inferred type of \<^verbatim>\<open>y + 1\<close>, in the context in which the
  initializer is checked, is not absent.
\<close>

theorem undeclared_operand_counterexample:
  "run 50 ''void f() { int x = y + 1; }''
     \<noteq> Inr [''Use of undeclared identifier y in function f'']
   \<and> fst (infer_type Map.empty
            [(''f'', FuncDecl ''void'' ''f'' [] (Compound [VarDecl ''int'' ''x''
                (Some (BinaryOp ''+'' (VarRef ''y'') (Literal_node (IntV 1) ''int''))) False]))]
            (FuncDecl ''void'' ''f'' [] (Compound [VarDecl ''int'' ''x''
                (Some (BinaryOp ''+'' (VarRef ''y'') (Literal_node (IntV 1) ''int''))) False]))
            (Map.empty(''x'' \<mapsto> (''int'', False)))
            (BinaryOp ''+'' (VarRef ''y'') (Literal_node (IntV 1) ''int'')) []) \<noteq> None"
  by code_simp

text \<open>
  C3, amended. On a variable reference that cannot be resolved \<open>infer_type\<close> returns an
  absent type and appends the undeclared-identifier diagnostic itself. An arithmetic
  operator infers float when an operand infers float and int otherwise, also when an
  operand's type is absent. For \<^verbatim>\<open>void f() { int x = y + 1; }\<close> with \<^verbatim>\<open>y\<close> undeclared the
  inferred type of \<^verbatim>\<open>y + 1\<close> is int, and what the analysis reports is that \<^verbatim>\<open>y\<close> is an
  undeclared identifier in \<^verbatim>\<open>f\<close>, and nothing else.
\<close>

theorem undeclared_operand_inference:
  "(scope n = None \<and> gs n = None \<and> map_of fs n = None \<longrightarrow>
      infer_type gs fs fd scope (VarRef n) errs
        = (None, errs @ [''Use of undeclared identifier '' @ n @ '' in function '' @ fname fd]))
   \<and> (op \<in> set arith_ops \<longrightarrow>
      fst (infer_type gs fs fd scope (BinaryOp op l r) errs)
        = (if fst (infer_type gs fs fd scope l errs) = Some ''float''
              \<or> fst (infer_type gs fs fd scope r errs) = Some ''float''
           then Some ''float'' else Some ''int''))
   \<and> fst (infer_type Map.empty
            [(''f'', FuncDecl ''void'' ''f'' [] (Compound [VarDecl ''int'' ''x''
                (Some (BinaryOp ''+'' (VarRef ''y'') (Literal_node (IntV 1) ''int''))) False]))]
            (FuncDecl ''void'' ''f'' [] (Compound [VarDecl ''int'' ''x''
                (Some (BinaryOp ''+'' (VarRef ''y'') (Literal_node (IntV 1) ''int''))) False]))
            (Map.empty(''x'' \<mapsto> (''int'', False)))
            (BinaryOp ''+'' (VarRef ''y'') (Literal_node (IntV 1) ''int'')) []) = Some ''int''
   \<and> map_sum id set (run 50 ''void f() { int x = y + 1; }'')
       = Inr {''Use of undeclared identifier y in function f''}"
proof (intro conjI impI)
  assume "scope n = None \<and> gs n = None \<and> map_of fs n = None"
  then show "infer_type gs fs fd scope (VarRef n) errs
        = (None, errs @ [''Use of undeclared identifier '' @ n @ '' in function '' @ fname fd])"
    by simp
next
  assume op: "op \<in> set arith_ops"
  obtain lt e1 where l: "infer_type gs fs fd scope l errs = (lt, e1)" by fastforce
  obtain rt e2 where r: "infer_type gs fs fd scope r e1 = (rt, e2)" by fastforce
  have "fst (infer_type gs fs fd scope r errs) = fst (infer_type gs fs fd scope r e1)"
    using infer_type_fst[of gs fs fd scope r errs] infer_type_fst[of gs fs fd scope r e1]
    by simp
  then have rt: "fst (infer_type gs fs fd scope r errs) = rt" using r by simp
  show "fst (infer_type gs fs fd scope (BinaryOp op l r) errs)
        = (if fst (infer_type gs fs fd scope l errs) = Some ''float''
              \<or> fst (infer_type gs fs fd scope r errs) = Some ''float''
           then Some ''float'' else Some ''int'')"
    using op by (simp add: l r rt)
next
  show "fst (infer_type Map.empty
            [(''f'', FuncDecl ''void'' ''f'' [] (Compound [VarDecl ''int'' ''x''
                (Some (BinaryOp ''+'' (VarRef ''y'') (Literal_node (IntV 1) ''int''))) False]))]
            (FuncDecl ''void'' ''f'' [] (Compound [VarDecl ''int'' ''x''
                (Some (BinaryOp ''+'' (VarRef ''y'') (Literal_node (IntV 1) ''int''))) False]))
            (Map.empty(''x'' \<mapsto> (''int'', False)))
            (BinaryOp ''+'' (VarRef ''y'') (Literal_node (IntV 1) ''int'')) []) = Some ''int''"
    by code_simp
next
  have "run 50 ''void f() { int x = y + 1; }''
       = Inr [''Use of undeclared identifier y in function f'',
              ''Use of undeclared identifier y in function f'']"
    by code_simp
  then show "map_sum id set (run 50 ''void f() { int x = y + 1; }'')
       = Inr {''Use of undeclared identifier y in function f''}"
    by simp
qed

theorem undeclared_operand_inference_witness:
  "infer_type Map.empty [] (FuncDecl ''void'' ''f'' [] (Compound [])) Map.empty (VarRef ''y'') []
     = (None, [''Use of undeclared identifier y in function f''])
   \<and> fst (infer_type Map.empty [] (FuncDecl ''void'' ''f'' [] (Compound [])) Map.empty
            (BinaryOp ''+'' (VarRef ''y'') (Literal_node (IntV 1) ''int'')) [])
       = Some ''int''"
proof -
  have lit: "infer_type Map.empty [] (FuncDecl ''void'' ''f'' [] (Compound [])) Map.empty
               (Literal_node (IntV 1) ''int'') [] = (Some ''int'', [])"
    by simp
  show ?thesis
    using undeclared_operand_inference [where scope = Map.empty and gs = Map.empty
          and fs = "[]" and n = "''y''" and fd = "FuncDecl ''void'' ''f'' [] (Compound [])"
          and errs = "[]" and op = "''+''" and l = "VarRef ''y''"
          and r = "Literal_node (IntV 1) ''int''"]
    by (simp add: arith_ops_def lit del: infer_type.simps)
qed

text \<open>
  C7. Let the top-level declarations have two variable declarations of the name \<open>n\<close>, all
  other variable names and all function names being distinct (or two function
  declarations of the name \<open>n\<close>, all other names being distinct). Then the first loop of
  \<open>analyze\<close> produces exactly one diagnostic, the redeclaration of \<open>n\<close>; the table keeps
  the first declaration's entry, and a reference to \<open>n\<close> (not hidden by a local) infers
  the first declaration's type, a call of \<open>n\<close> the first declaration's return type.
\<close>

theorem global_redeclaration_first_wins:
  assumes dv: "distinct (var_names (pre @ mid @ post))"
    and df: "distinct (fun_names (pre @ mid @ post))"
  shows "(declarations p = pre @ [VarDecl t1 n i1 c1] @ mid @ [VarDecl t2 n i2 c2] @ post
          \<and> n \<notin> set (var_names (pre @ mid @ post)) \<longrightarrow>
          errors (collect (declarations p) (SemanticAnalyzer p)) = [''Redeclaration of global '' @ n]
          \<and> global_scope (analyze (SemanticAnalyzer p)) n = Some (t1, c1)
          \<and> (scope n = None \<longrightarrow>
               infer_type (global_scope (analyze (SemanticAnalyzer p)))
                 (functions (analyze (SemanticAnalyzer p))) f scope (VarRef n) errs
               = (Some t1, errs)))
       \<and> (declarations p = pre @ [FuncDecl r1 n p1 b1] @ mid @ [FuncDecl r2 n p2 b2] @ post
          \<and> n \<notin> set (fun_names (pre @ mid @ post)) \<longrightarrow>
          errors (collect (declarations p) (SemanticAnalyzer p)) = [''Redeclaration of function '' @ n]
          \<and> map_of (functions (analyze (SemanticAnalyzer p))) n = Some (FuncDecl r1 n p1 b1)
          \<and> fst (infer_type (global_scope (analyze (SemanticAnalyzer p)))
                 (functions (analyze (SemanticAnalyzer p))) f scope (FuncCall n args) errs)
               = Some r1)"
proof (intro conjI impI)
  assume h: "declarations p = pre @ [VarDecl t1 n i1 c1] @ mid @ [VarDecl t2 n i2 c2] @ post
          \<and> n \<notin> set (var_names (pre @ mid @ post))"
  have r: "errors (collect (pre @ [VarDecl t1 n i1 c1] @ mid @ [VarDecl t2 n i2 c2] @ post)
                    (SemanticAnalyzer p)) = [''Redeclaration of global '' @ n]
         \<and> (\<lambda>a. global_scope a n = Some (t1, c1))
             (collect (pre @ [VarDecl t1 n i1 c1] @ mid @ [VarDecl t2 n i2 c2] @ post)
                    (SemanticAnalyzer p))"
  proof (rule collect_split_duplicate)
    show "distinct (var_names (pre @ [VarDecl t1 n i1 c1] @ mid @ post))"
      using dv h by (auto simp: var_names_append)
    show "distinct (fun_names (pre @ [VarDecl t1 n i1 c1] @ mid @ post))"
      using df by (auto simp: fun_names_append)
    show "\<And>a. set (var_names [VarDecl t1 n i1 c1]) \<inter> dom (global_scope a) = {} \<Longrightarrow>
          set (fun_names [VarDecl t1 n i1 c1]) \<inter> fst ` set (functions a) = {} \<Longrightarrow>
          global_scope (collect [VarDecl t1 n i1 c1] a) n = Some (t1, c1)"
      by auto
    show "\<And>a ds. global_scope a n = Some (t1, c1) \<Longrightarrow> global_scope (collect ds a) n = Some (t1, c1)"
      by (rule collect_global_keeps)
    show "\<And>a. global_scope a n = Some (t1, c1) \<Longrightarrow>
           collect [VarDecl t2 n i2 c2] a = a\<lparr>errors := errors a @ [''Redeclaration of global '' @ n]\<rparr>"
      by simp
  qed (simp_all add: SemanticAnalyzer_def)
  show "errors (collect (declarations p) (SemanticAnalyzer p)) = [''Redeclaration of global '' @ n]"
    using r h by simp
  show g: "global_scope (analyze (SemanticAnalyzer p)) n = Some (t1, c1)"
    using r h by (simp add: analyze_tables SemanticAnalyzer_def)
  show "infer_type (global_scope (analyze (SemanticAnalyzer p)))
          (functions (analyze (SemanticAnalyzer p))) f scope (VarRef n) errs = (Some t1, errs)"
    if "scope n = None"
    using that g by simp
next
  assume h: "declarations p = pre @ [FuncDecl r1 n p1 b1] @ mid @ [FuncDecl r2 n p2 b2] @ post
          \<and> n \<notin> set (fun_names (pre @ mid @ post))"
  have r: "errors (collect (pre @ [FuncDecl r1 n p1 b1] @ mid @ [FuncDecl r2 n p2 b2] @ post)
                    (SemanticAnalyzer p)) = [''Redeclaration of function '' @ n]
         \<and> (\<lambda>a. map_of (functions a) n = Some (FuncDecl r1 n p1 b1))
             (collect (pre @ [FuncDecl r1 n p1 b1] @ mid @ [FuncDecl r2 n p2 b2] @ post)
                    (SemanticAnalyzer p))"
  proof (rule collect_split_duplicate)
    show "distinct (var_names (pre @ [FuncDecl r1 n p1 b1] @ mid @ post))"
      using dv by (auto simp: var_names_append)
    show "distinct (fun_names (pre @ [FuncDecl r1 n p1 b1] @ mid @ post))"
      using df h by (auto simp: fun_names_append)
    show "\<And>a. set (var_names [FuncDecl r1 n p1 b1]) \<inter> dom (global_scope a) = {} \<Longrightarrow>
          set (fun_names [FuncDecl r1 n p1 b1]) \<inter> fst ` set (functions a) = {} \<Longrightarrow>
          map_of (functions (collect [FuncDecl r1 n p1 b1] a)) n = Some (FuncDecl r1 n p1 b1)"
    proof -
      fix a :: analyzer
      assume "set (fun_names [FuncDecl r1 n p1 b1]) \<inter> fst ` set (functions a) = {}"
      then have "map_of (functions a) n = None"
        by (simp add: map_of_eq_None_iff)
      then show "map_of (functions (collect [FuncDecl r1 n p1 b1] a)) n = Some (FuncDecl r1 n p1 b1)"
        by (simp add: map_of_append map_add_def)
    qed
    show "\<And>a ds. map_of (functions a) n = Some (FuncDecl r1 n p1 b1) \<Longrightarrow>
           map_of (functions (collect ds a)) n = Some (FuncDecl r1 n p1 b1)"
      by (rule collect_functions_keeps)
    show "\<And>a. map_of (functions a) n = Some (FuncDecl r1 n p1 b1) \<Longrightarrow>
           collect [FuncDecl r2 n p2 b2] a = a\<lparr>errors := errors a @ [''Redeclaration of function '' @ n]\<rparr>"
      by simp
  qed (simp_all add: SemanticAnalyzer_def)
  show "errors (collect (declarations p) (SemanticAnalyzer p)) = [''Redeclaration of function '' @ n]"
    using r h by simp
  show g: "map_of (functions (analyze (SemanticAnalyzer p))) n = Some (FuncDecl r1 n p1 b1)"
    using r h by (simp add: analyze_tables SemanticAnalyzer_def)
  show "fst (infer_type (global_scope (analyze (SemanticAnalyzer p)))
                 (functions (analyze (SemanticAnalyzer p))) f scope (FuncCall n args) errs)
               = Some r1"
    using g by (simp add: Let_def)
qed

theorem global_redeclaration_first_wins_witness:
  "errors (collect [VarDecl ''int'' ''a'' None False, VarDecl ''int'' ''x'' None False,
                    FuncDecl ''void'' ''g'' [] (Compound []), VarDecl ''float'' ''x'' None True]
             (SemanticAnalyzer (Program
                [VarDecl ''int'' ''a'' None False, VarDecl ''int'' ''x'' None False,
                 FuncDecl ''void'' ''g'' [] (Compound []), VarDecl ''float'' ''x'' None True])))
     = [''Redeclaration of global x'']
   \<and> global_scope (analyze (SemanticAnalyzer (Program
                [VarDecl ''int'' ''a'' None False, VarDecl ''int'' ''x'' None False,
                 FuncDecl ''void'' ''g'' [] (Compound []), VarDecl ''float'' ''x'' None True])))
        ''x'' = Some (''int'', False)
   \<and> map_of (functions (analyze (SemanticAnalyzer (Program
                [FuncDecl ''int'' ''f'' [] (Compound []), VarDecl ''int'' ''a'' None False,
                 FuncDecl ''float'' ''f'' [(''int'', ''k'')] (Compound [])])))) ''f''
       = Some (FuncDecl ''int'' ''f'' [] (Compound []))"
proof -
  have dv: "distinct (var_names ([VarDecl ''int'' ''a'' None False]
                @ [FuncDecl ''void'' ''g'' [] (Compound [])] @ []))"
    and df: "distinct (fun_names ([VarDecl ''int'' ''a'' None False]
                @ [FuncDecl ''void'' ''g'' [] (Compound [])] @ []))"
    by simp_all
  have dv2: "distinct (var_names ([] @ [VarDecl ''int'' ''a'' None False] @ []))"
    and df2: "distinct (fun_names ([] @ [VarDecl ''int'' ''a'' None False] @ []))"
    by simp_all
  show ?thesis
    using global_redeclaration_first_wins [OF dv df,
            where p = "Program [VarDecl ''int'' ''a'' None False, VarDecl ''int'' ''x'' None False,
                 FuncDecl ''void'' ''g'' [] (Compound []), VarDecl ''float'' ''x'' None True]"
              and n = "''x''" and ?t1.0 = "''int''" and ?i1.0 = None and ?c1.0 = False
              and ?t2.0 = "''float''" and ?i2.0 = None and ?c2.0 = True]
          global_redeclaration_first_wins [OF dv2 df2,
            where p = "Program [FuncDecl ''int'' ''f'' [] (Compound []), VarDecl ''int'' ''a'' None False,
                 FuncDecl ''float'' ''f'' [(''int'', ''k'')] (Compound [])]"
              and n = "''f''" and ?r1.0 = "''int''" and ?p1.0 = "[]" and ?b1.0 = "Compound []"
              and ?r2.0 = "''float''" and ?p2.0 = "[(''int'', ''k'')]" and ?b2.0 = "Compound []"]
    by (simp del: collect.simps)
qed

text \<open>
  C9 (the claim as stated fails). The claim: invoking \<^verbatim>\<open>analyze\<close> a second time yields a
  diagnostics list equal to the one after the first invocation. For the tree of
  \<^verbatim>\<open>int x;\<close> the first invocation leaves the list empty, the second one appends a
  redeclaration of \<^verbatim>\<open>x\<close>: \<^verbatim>\<open>analyze\<close> never resets the tables or the list.
\<close>

theorem analyze_twice_counterexample:
  "parse 50 ''int x;'' = Inr (Program [VarDecl ''int'' ''x'' None False])
   \<and> errors (analyze (SemanticAnalyzer (Program [VarDecl ''int'' ''x'' None False]))) = []
   \<and> errors (analyze (analyze (SemanticAnalyzer (Program [VarDecl ''int'' ''x'' None False]))))
       = [''Redeclaration of global x'']
   \<and> errors (analyze (analyze (SemanticAnalyzer (Program [VarDecl ''int'' ''x'' None False]))))
       \<noteq> errors (analyze (SemanticAnalyzer (Program [VarDecl ''int'' ''x'' None False])))"
  by code_simp

text \<open>
  C9, amended. \<open>analyze\<close> leaves the tree unchanged and only appends to the diagnostics
  the analyzer holds. So a second analysis of the same tree by a new analyzer yields the
  same diagnostics, in the same order; a second \<open>analyze\<close> on the same analyzer yields the
  diagnostics of the first, followed by one redeclaration diagnostic for every top-level
  variable and function declaration, followed by the diagnostics of the function pass
  once more.
\<close>

theorem analyze_twice_appends:
  "program (analyze a) = program a
   \<and> take (length (errors a)) (errors (analyze a)) = errors a
   \<and> errors (analyze (SemanticAnalyzer (program (analyze (SemanticAnalyzer p)))))
       = errors (analyze (SemanticAnalyzer p))
   \<and> errors (analyze (analyze (SemanticAnalyzer p)))
       = errors (analyze (SemanticAnalyzer p))
         @ concat (map redeclaration (declarations p))
         @ pass2_diags (collect (declarations p) (SemanticAnalyzer p))"
proof (intro conjI)
  show prog: "program (analyze a) = program a" for a
    by (simp add: analyze_eq collect_program)
  show "take (length (errors a)) (errors (analyze a)) = errors a"
  proof -
    obtain ds where "errors (collect (declarations (program a)) a) = errors a @ ds"
      using collect_errors_append by blast
    then show ?thesis by (simp add: analyze_eq)
  qed
  show "errors (analyze (SemanticAnalyzer (program (analyze (SemanticAnalyzer p)))))
       = errors (analyze (SemanticAnalyzer p))"
    by (simp add: prog SemanticAnalyzer_def)
  show "errors (analyze (analyze (SemanticAnalyzer p)))
       = errors (analyze (SemanticAnalyzer p))
         @ concat (map redeclaration (declarations p))
         @ pass2_diags (collect (declarations p) (SemanticAnalyzer p))"
  proof -
    define a0 where "a0 = SemanticAnalyzer p"
    define a1 where "a1 = collect (declarations p) a0"
    define e1 where "e1 = errors a1 @ pass2_diags a1"
    have p0: "program a0 = p" by (simp add: a0_def SemanticAnalyzer_def)
    have A1: "analyze a0 = a1\<lparr>errors := e1\<rparr>"
      by (simp add: analyze_eq p0 a1_def e1_def)
    have p1: "program a1 = p" by (simp add: a1_def collect_program p0)
    have v: "set (var_names (declarations p)) \<subseteq> dom (global_scope (a1\<lparr>errors := e1\<rparr>))"
      by (simp add: a1_def collect_global_dom)
    have f: "set (fun_names (declarations p)) \<subseteq> fst ` set (functions (a1\<lparr>errors := e1\<rparr>))"
      by (simp add: a1_def collect_functions_dom)
    have "collect (declarations p) (a1\<lparr>errors := e1\<rparr>)
            = a1\<lparr>errors := e1 @ concat (map redeclaration (declarations p))\<rparr>"
      using collect_populated[OF v f] by simp
    then have "errors (analyze (a1\<lparr>errors := e1\<rparr>))
            = e1 @ concat (map redeclaration (declarations p)) @ pass2_diags a1"
      by (simp add: analyze_eq p1)
    then show ?thesis
      by (simp add: A1[unfolded a0_def] a1_def[unfolded a0_def, symmetric] e1_def)
  qed
qed

text \<open>
  C10. Visiting a local declaration of a name \<open>n\<close> that the local table already holds
  (the initializer, if any, being an expression) appends the redeclaration diagnostic
  and leaves the table with the entry of this later declaration: a following reference
  to \<open>n\<close> infers the later type, and a following assignment to \<open>n\<close> is reported as an
  assignment to a const variable exactly according to the later const flag. The two
  texts show both rules: inside a function the later \<^verbatim>\<open>const float x\<close> wins and the
  assignment is flagged; at top level the first \<^verbatim>\<open>int x\<close> wins and it is not.
\<close>

theorem local_redeclaration_last_wins:
  assumes n: "scope n \<noteq> None"
    and init: "case init of None \<Rightarrow> True | Some e \<Rightarrow> is_expr e"
  shows "(\<exists>ds. visit gs fs f (VarDecl vt n init c) (scope, errs)
            = (scope(n \<mapsto> (vt, c)),
               errs @ [''Redeclaration of '' @ n @ '' in function '' @ fname f] @ ds))
       \<and> infer_type gs fs f (fst (visit gs fs f (VarDecl vt n init c) (scope, errs))) (VarRef n) es
           = (Some vt, es)
       \<and> (\<exists>ds. snd (visit gs fs f (BinaryOp ''='' (VarRef n) (Literal_node v t))
                       (fst (visit gs fs f (VarDecl vt n init c) (scope, errs)), es))
            = (if c then es @ [''Assignment to const variable '' @ n @ '' in function '' @ fname f]
               else es) @ ds)
       \<and> run 50 ''void f() { int x = 1; const float x = 2.5; x = 3; }''
           = Inr [''Redeclaration of x in function f'',
                  ''Assignment to const variable x in function f'']
       \<and> run 50 ''int x = 1; const float x = 2.5; void f() { x = 3; }''
           = Inr [''Redeclaration of global x'']"
proof -
  let ?m = "''Redeclaration of '' @ n @ '' in function '' @ fname f"
  let ?sc = "scope(n \<mapsto> (vt, c))"
  have v: "\<exists>ds. visit gs fs f (VarDecl vt n init c) (scope, errs) = (?sc, errs @ [?m] @ ds)"
  proof (cases init)
    case None
    then show ?thesis using n by simp
  next
    case (Some e)
    then have e: "is_expr e" using init by simp
    obtain it e2 where i: "infer_type gs fs f ?sc e (errs @ [?m]) = (it, e2)"
      by fastforce
    have "e2 = (errs @ [?m]) @ snd (infer_type gs fs f ?sc e [])"
      using infer_append[of gs fs f ?sc e "errs @ [?m]" "[]"] i by simp
    then obtain d1 where e2: "e2 = errs @ [?m] @ d1" by simp
    define e3 where "e3 = (case it of None \<Rightarrow> e2
       | Some t \<Rightarrow> if t \<noteq> [] \<and> t \<noteq> vt \<and> \<not> (t = ''int'' \<and> vt = ''float'')
           then e2 @ [''Type mismatch in initializer for '' @ n @ '': '' @ t @ '' -> '' @ vt
                      @ '' in function '' @ fname f]
           else e2)"
    have "e3 = e2 \<or> (\<exists>x. e3 = e2 @ [x])"
      by (cases it) (simp_all add: e3_def)
    then obtain d2 where e3: "e3 = errs @ [?m] @ d2"
      using e2 by auto
    have vd: "visit gs fs f (VarDecl vt n init c) (scope, errs) = visit gs fs f e (?sc, e3)"
      using Some n i is_expr_truthy[OF e] by (simp add: e3_def)
    obtain d3 where "snd (visit gs fs f e (?sc, e3)) = e3 @ d3"
      using visit_errors_append by blast
    moreover have "fst (visit gs fs f e (?sc, e3)) = ?sc"
      by (rule visit_expr_scope[OF e])
    ultimately have "visit gs fs f e (?sc, e3) = (?sc, errs @ [?m] @ d2 @ d3)"
      using e3 by (simp add: prod_eq_iff)
    then show ?thesis using vd by auto
  qed
  then have sc: "fst (visit gs fs f (VarDecl vt n init c) (scope, errs)) = ?sc"
    by auto
  have a: "\<exists>ds. snd (visit gs fs f (BinaryOp ''='' (VarRef n) (Literal_node v t)) (?sc, es))
            = (if c then es @ [''Assignment to const variable '' @ n @ '' in function '' @ fname f]
               else es) @ ds"
    by (cases "gs n") (auto simp: assign_ops_def)
  have r1: "run 50 ''void f() { int x = 1; const float x = 2.5; x = 3; }''
           = Inr [''Redeclaration of x in function f'',
                  ''Assignment to const variable x in function f'']"
    by code_simp
  have r2: "run 50 ''int x = 1; const float x = 2.5; void f() { x = 3; }''
           = Inr [''Redeclaration of global x'']"
    by code_simp
  show ?thesis
    using v a r1 r2 by (simp only: sc) simp
qed

theorem local_redeclaration_last_wins_witness:
  "(\<exists>ds. visit Map.empty [] (FuncDecl ''void'' ''f'' [] (Compound []))
            (VarDecl ''float'' ''x'' (Some (Literal_node (FloatV ''2.5'') ''float'')) True)
            (Map.empty(''x'' \<mapsto> (''int'', False)), [])
       = (Map.empty(''x'' \<mapsto> (''float'', True)), [''Redeclaration of x in function f''] @ ds))"
proof -
  have n: "(Map.empty(''x'' \<mapsto> (''int'', False))) ''x'' \<noteq> None" by simp
  have i: "case Some (Literal_node (FloatV ''2.5'') ''float'') of None \<Rightarrow> True | Some e \<Rightarrow> is_expr e"
    by simp
  show ?thesis
    using local_redeclaration_last_wins [where scope = "Map.empty(''x'' \<mapsto> (''int'', False))"
        and n = "''x''" and init = "Some (Literal_node (FloatV ''2.5'') ''float'')"
        and gs = Map.empty and fs = "[]"
        and f = "FuncDecl ''void'' ''f'' [] (Compound [])" and vt = "''float''" and c = True
        and errs = "[]", OF n i]
    by (simp del: visit.simps)
qed

end
